theory Spec2Isabelle
  imports Complex_Main "HOL-Library.Sublist" "HOL-Library.Multiset"
begin


section \<open>JavaScript numbers\<close>

text \<open>
  The program computes with JavaScript numbers. The model keeps the values that decide
  control flow in the code: a finite number, the two infinities and NaN. Finite numbers
  are idealised as reals (no rounding, no overflow, no signed zero); division by zero and
  arithmetic on \<open>undefined\<close> produce infinities and NaN as in the language.
\<close>

datatype jsnum = Num real | PInf | NInf | NaN

text \<open>\<open>x + y\<close>\<close>

fun js_add :: "jsnum \<Rightarrow> jsnum \<Rightarrow> jsnum" where
  "js_add NaN y = NaN"
| "js_add x NaN = NaN"
| "js_add (Num a) (Num b) = Num (a + b)"
| "js_add PInf NInf = NaN"
| "js_add NInf PInf = NaN"
| "js_add PInf y = PInf"
| "js_add x PInf = PInf"
| "js_add NInf y = NInf"
| "js_add x NInf = NInf"

text \<open>\<open>-x\<close>\<close>

fun js_neg :: "jsnum \<Rightarrow> jsnum" where
  "js_neg (Num a) = Num (- a)"
| "js_neg PInf = NInf"
| "js_neg NInf = PInf"
| "js_neg NaN = NaN"

text \<open>\<open>x - y\<close>\<close>

definition js_sub :: "jsnum \<Rightarrow> jsnum \<Rightarrow> jsnum" where
  "js_sub x y = js_add x (js_neg y)"

text \<open>An infinity of the sign of a non-zero finite number, times an infinity.\<close>

definition js_signed :: "real \<Rightarrow> jsnum \<Rightarrow> jsnum" where
  "js_signed a w = (if a = 0 then NaN else if 0 < a then w else js_neg w)"

text \<open>\<open>x * y\<close>\<close>

fun js_mul :: "jsnum \<Rightarrow> jsnum \<Rightarrow> jsnum" where
  "js_mul NaN y = NaN"
| "js_mul x NaN = NaN"
| "js_mul (Num a) (Num b) = Num (a * b)"
| "js_mul (Num a) y = js_signed a y"
| "js_mul x (Num b) = js_signed b x"
| "js_mul PInf y = y"
| "js_mul NInf y = js_neg y"

text \<open>\<open>x / y\<close>: a finite number over zero is an infinity, zero over zero is NaN.\<close>

fun js_div :: "jsnum \<Rightarrow> jsnum \<Rightarrow> jsnum" where
  "js_div NaN y = NaN"
| "js_div x NaN = NaN"
| "js_div (Num a) (Num b) =
     (if b = 0 then (if a = 0 then NaN else if 0 < a then PInf else NInf) else Num (a / b))"
| "js_div (Num a) y = Num 0"
| "js_div x (Num b) = (if 0 \<le> b then x else js_neg x)"
| "js_div x y = NaN"

text \<open>\<open>Math.sqrt(x)\<close>\<close>

fun js_sqrt :: "jsnum \<Rightarrow> jsnum" where
  "js_sqrt (Num a) = (if a < 0 then NaN else Num (sqrt a))"
| "js_sqrt PInf = PInf"
| "js_sqrt x = NaN"

text \<open>\<open>Math.log2(x)\<close>\<close>

fun js_log2 :: "jsnum \<Rightarrow> jsnum" where
  "js_log2 (Num a) = (if a < 0 then NaN else if a = 0 then NInf else Num (log 2 a))"
| "js_log2 PInf = PInf"
| "js_log2 x = NaN"

text \<open>\<open>x < y\<close>: false whenever an operand is NaN.\<close>

fun js_lt :: "jsnum \<Rightarrow> jsnum \<Rightarrow> bool" where
  "js_lt NaN y = False"
| "js_lt x NaN = False"
| "js_lt (Num a) (Num b) = (a < b)"
| "js_lt x NInf = False"
| "js_lt PInf y = False"
| "js_lt x y = True"

text \<open>\<open>x > y\<close>\<close>

definition js_gt :: "jsnum \<Rightarrow> jsnum \<Rightarrow> bool" where
  "js_gt x y = js_lt y x"

text \<open>\<open>x >= y\<close>: false whenever an operand is NaN.\<close>

fun js_ge :: "jsnum \<Rightarrow> jsnum \<Rightarrow> bool" where
  "js_ge NaN y = False"
| "js_ge x NaN = False"
| "js_ge x y = (\<not> js_lt x y)"

text \<open>\<open>x === y\<close> on numbers: NaN is equal to nothing, itself included.\<close>

fun js_strict_eq :: "jsnum \<Rightarrow> jsnum \<Rightarrow> bool" where
  "js_strict_eq NaN y = False"
| "js_strict_eq x NaN = False"
| "js_strict_eq x y = (x = y)"

text \<open>
  \<open>xs[i]\<close> used as a number: an index past the end reads \<open>undefined\<close>, which
  arithmetic turns into NaN.
\<close>

definition js_index :: "real list \<Rightarrow> nat \<Rightarrow> jsnum" where
  "js_index xs i = (if i < length xs then Num (xs ! i) else NaN)"

section \<open>Strings\<close>

text \<open>
  Strings are lists of 8-bit characters. \<open>toLowerCase\<close> is modelled on the ASCII
  letters; every other character is left as it is.
\<close>

definition toLowerChar :: "char \<Rightarrow> char" where
  "toLowerChar c =
     (let n = (of_char c :: nat) in if 65 \<le> n \<and> n \<le> 90 then char_of (n + 32) else c)"

definition toLowerCase :: "string \<Rightarrow> string" where
  "toLowerCase s = map toLowerChar s"

text \<open>\<open>hay.includes(needle)\<close>: \<open>needle\<close> occurs in \<open>hay\<close> as a contiguous run.\<close>

fun isPrefix :: "string \<Rightarrow> string \<Rightarrow> bool" where
  "isPrefix [] ys = True"
| "isPrefix (x # xs) [] = False"
| "isPrefix (x # xs) (y # ys) = (x = y \<and> isPrefix xs ys)"

fun includes_str :: "string \<Rightarrow> string \<Rightarrow> bool" where
  "includes_str [] needle = (needle = [])"
| "includes_str (h # hay) needle = (isPrefix needle (h # hay) \<or> includes_str hay needle)"

text \<open>\<open>xs.join(sep)\<close>\<close>

fun joinWith :: "string \<Rightarrow> string list \<Rightarrow> string" where
  "joinWith sep [] = []"
| "joinWith sep [x] = x"
| "joinWith sep (x # y # ys) = x @ sep @ joinWith sep (y # ys)"

section \<open>The semantic chunker (utils.js)\<close>

subsection \<open>cosineSimilarity\<close>

text \<open>
  The three accumulators of the loop, updated for index \<open>i\<close>. \<open>a[i]\<close> is in range
  (the loop runs to \<open>a.length\<close>); \<open>b[i]\<close> may be \<open>undefined\<close>.
\<close>

record cosAcc =
  dot :: jsnum
  normA :: jsnum
  normB :: jsnum

definition cosStep :: "real list \<Rightarrow> real list \<Rightarrow> nat \<Rightarrow> cosAcc \<Rightarrow> cosAcc" where
  "cosStep a b i acc =
     \<lparr> dot = js_add (dot acc) (js_mul (Num (a ! i)) (js_index b i)),
       normA = js_add (normA acc) (js_mul (Num (a ! i)) (Num (a ! i))),
       normB = js_add (normB acc) (js_mul (js_index b i) (js_index b i)) \<rparr>"

definition cosineSimilarity :: "real list \<Rightarrow> real list \<Rightarrow> jsnum" where
  "cosineSimilarity a b =
     (let acc = fold (cosStep a b) [0..<length a] \<lparr> dot = Num 0, normA = Num 0, normB = Num 0 \<rparr>
      in js_div (dot acc) (js_mul (js_sqrt (normA acc)) (js_sqrt (normB acc))))"

subsection \<open>semanticChunkWithLimits\<close>

text \<open>
  The options object: a field that is absent takes the default of the destructuring
  pattern (0.65, 500, 100).
\<close>

record options =
  threshold :: "jsnum option"
  maxTokens :: "jsnum option"
  minTokens :: "jsnum option"

definition optThreshold :: "options \<Rightarrow> jsnum" where
  "optThreshold opts = (case threshold opts of None \<Rightarrow> Num 0.65 | Some v \<Rightarrow> v)"

definition optMaxTokens :: "options \<Rightarrow> jsnum" where
  "optMaxTokens opts = (case maxTokens opts of None \<Rightarrow> Num 500 | Some v \<Rightarrow> v)"

definition optMinTokens :: "options \<Rightarrow> jsnum" where
  "optMinTokens opts = (case minTokens opts of None \<Rightarrow> Num 100 | Some v \<Rightarrow> v)"

text \<open>The variables the loop mutates.\<close>

record chunkState =
  chunks :: "string list"
  currentSentences :: "string list"
  currentTokens :: nat

definition initState :: chunkState where
  "initState = \<lparr> chunks = [], currentSentences = [], currentTokens = 0 \<rparr>"

text \<open>\<open>shouldSplit\<close>: the candidate signal of the loop body.\<close>

definition shouldSplit :: "jsnum \<Rightarrow> jsnum \<Rightarrow> nat \<Rightarrow> nat \<Rightarrow> jsnum \<Rightarrow> bool" where
  "shouldSplit similarity thr curTokens sentTokens maxT =
     (js_lt similarity thr \<or> js_gt (Num (real (curTokens + sentTokens))) maxT)"

text \<open>
  One iteration of the loop, for index \<open>i\<close>. \<open>encodeLen s\<close> stands for
  \<open>encode(s).length\<close> of the external tokenizer.
\<close>

definition chunkStep ::
  "(string \<Rightarrow> nat) \<Rightarrow> jsnum \<Rightarrow> jsnum \<Rightarrow> jsnum \<Rightarrow> string list \<Rightarrow> real list list \<Rightarrow>
   nat \<Rightarrow> chunkState \<Rightarrow> chunkState" where
  "chunkStep encodeLen thr maxT minT sentences sentenceEmbeddings i st =
     (let sent = sentences ! i;
          sentEmbedding = sentenceEmbeddings ! i;
          sentTokens = encodeLen sent
      in if currentSentences st = [] then
           st \<lparr> currentSentences := currentSentences st @ [sent],
                currentTokens := currentTokens st + sentTokens \<rparr>
         else
           let prevEmbedding = sentenceEmbeddings ! (i - 1);
               similarity = cosineSimilarity prevEmbedding sentEmbedding
           in if shouldSplit similarity thr (currentTokens st) sentTokens maxT
                 \<and> js_ge (Num (real (currentTokens st))) minT
              then \<lparr> chunks = chunks st @ [joinWith '' '' (currentSentences st)],
                     currentSentences = [sent],
                     currentTokens = sentTokens \<rparr>
              else st \<lparr> currentSentences := currentSentences st @ [sent],
                        currentTokens := currentTokens st + sentTokens \<rparr>)"

text \<open>The state after the first \<open>k\<close> iterations.\<close>

definition chunkLoop ::
  "(string \<Rightarrow> nat) \<Rightarrow> jsnum \<Rightarrow> jsnum \<Rightarrow> jsnum \<Rightarrow> string list \<Rightarrow> real list list \<Rightarrow>
   nat \<Rightarrow> chunkState" where
  "chunkLoop encodeLen thr maxT minT sentences sentenceEmbeddings k =
     fold (chunkStep encodeLen thr maxT minT sentences sentenceEmbeddings) [0..<k] initState"

text \<open>After the loop: the last chunk, if there is one.\<close>

definition finishChunks :: "chunkState \<Rightarrow> string list" where
  "finishChunks st =
     (if currentSentences st \<noteq> [] then chunks st @ [joinWith '' '' (currentSentences st)]
      else chunks st)"

text \<open>
  The function itself. \<open>splitIntoSentences\<close> (the external segmenter) and \<open>encodeLen\<close>
  are parameters. \<open>embedFn\<close> returns \<open>None\<close> when its promise is rejected;
  \<open>Promise.all\<close> then rejects and the function returns nothing.
\<close>

definition semanticChunkWithLimits ::
  "(string \<Rightarrow> string list) \<Rightarrow> (string \<Rightarrow> nat) \<Rightarrow>
   string \<Rightarrow> (string \<Rightarrow> real list option) \<Rightarrow> options \<Rightarrow> string list option" where
  "semanticChunkWithLimits splitIntoSentences encodeLen text_in embedFn opts =
     (let sentences = splitIntoSentences text_in
      in case those (map embedFn sentences) of
           None \<Rightarrow> None
         | Some sentenceEmbeddings \<Rightarrow>
             Some (finishChunks
               (chunkLoop encodeLen (optThreshold opts) (optMaxTokens opts) (optMinTokens opts)
                  sentences sentenceEmbeddings (length sentences))))"

text \<open>
  An instrumented copy of the loop, used to state properties of the chunks: it is
  \<open>chunkStep\<close> with each emitted chunk kept as its list of sentences instead of the
  joined text (\<open>chunkLoop_groupLoop\<close> below relates the two).
\<close>

record groupState =
  groups :: "string list list"
  groupSentences :: "string list"
  groupTokens :: nat

definition initGroups :: groupState where
  "initGroups = \<lparr> groups = [], groupSentences = [], groupTokens = 0 \<rparr>"

definition groupStep ::
  "(string \<Rightarrow> nat) \<Rightarrow> jsnum \<Rightarrow> jsnum \<Rightarrow> jsnum \<Rightarrow> string list \<Rightarrow> real list list \<Rightarrow>
   nat \<Rightarrow> groupState \<Rightarrow> groupState" where
  "groupStep encodeLen thr maxT minT sentences sentenceEmbeddings i st =
     (let sent = sentences ! i;
          sentEmbedding = sentenceEmbeddings ! i;
          sentTokens = encodeLen sent
      in if groupSentences st = [] then
           st \<lparr> groupSentences := groupSentences st @ [sent],
                groupTokens := groupTokens st + sentTokens \<rparr>
         else
           let prevEmbedding = sentenceEmbeddings ! (i - 1);
               similarity = cosineSimilarity prevEmbedding sentEmbedding
           in if shouldSplit similarity thr (groupTokens st) sentTokens maxT
                 \<and> js_ge (Num (real (groupTokens st))) minT
              then \<lparr> groups = groups st @ [groupSentences st],
                     groupSentences = [sent],
                     groupTokens = sentTokens \<rparr>
              else st \<lparr> groupSentences := groupSentences st @ [sent],
                        groupTokens := groupTokens st + sentTokens \<rparr>)"

definition groupLoop ::
  "(string \<Rightarrow> nat) \<Rightarrow> jsnum \<Rightarrow> jsnum \<Rightarrow> jsnum \<Rightarrow> string list \<Rightarrow> real list list \<Rightarrow>
   nat \<Rightarrow> groupState" where
  "groupLoop encodeLen thr maxT minT sentences sentenceEmbeddings k =
     fold (groupStep encodeLen thr maxT minT sentences sentenceEmbeddings) [0..<k] initGroups"

definition finishGroups :: "groupState \<Rightarrow> string list list" where
  "finishGroups st =
     (if groupSentences st \<noteq> [] then groups st @ [groupSentences st] else groups st)"

text \<open>The sentences of each chunk that \<open>semanticChunkWithLimits\<close> returns, in order.\<close>

definition sentenceGroups ::
  "(string \<Rightarrow> nat) \<Rightarrow> options \<Rightarrow> string list \<Rightarrow> real list list \<Rightarrow> string list list" where
  "sentenceGroups encodeLen opts sentences sentenceEmbeddings =
     finishGroups
       (groupLoop encodeLen (optThreshold opts) (optMaxTokens opts) (optMinTokens opts)
          sentences sentenceEmbeddings (length sentences))"

text \<open>The token count of a chunk: the sum over its sentences.\<close>

definition groupTokenCount :: "(string \<Rightarrow> nat) \<Rightarrow> string list \<Rightarrow> nat" where
  "groupTokenCount encodeLen g = sum_list (map encodeLen g)"

section \<open>The retrieval metrics (test.js)\<close>

text \<open>
  A search result of the vector store: \<open>r.score\<close>, \<open>r.payload.source\<close> and
  \<open>r.payload.text\<close>.
\<close>

record searchResult =
  score :: real
  payload_source :: string
  payload_text :: string

subsection \<open>calculateKeywordCoverage\<close>

definition calculateKeywordCoverage :: "searchResult list \<Rightarrow> string list \<Rightarrow> jsnum" where
  "calculateKeywordCoverage results keywords =
     (let combinedText = joinWith '' '' (map (\<lambda>r. toLowerCase (payload_text r)) results);
          foundKeywords = filter (\<lambda>keyword. includes_str combinedText (toLowerCase keyword)) keywords
      in js_div (Num (real (length foundKeywords))) (Num (real (length keywords))))"

subsection \<open>calculateMRR\<close>

definition hasKeyword :: "searchResult \<Rightarrow> string list \<Rightarrow> bool" where
  "hasKeyword r keywords =
     (let text_lc = toLowerCase (payload_text r)
      in list_ex (\<lambda>keyword. includes_str text_lc (toLowerCase keyword)) keywords)"

text \<open>The loop from index \<open>i\<close> on, over the results not yet visited.\<close>

fun mrrLoop :: "nat \<Rightarrow> searchResult list \<Rightarrow> string list \<Rightarrow> jsnum" where
  "mrrLoop i [] keywords = Num 0"
| "mrrLoop i (r # rs) keywords =
     (if hasKeyword r keywords then js_div (Num 1) (Num (real (i + 1)))
      else mrrLoop (i + 1) rs keywords)"

definition calculateMRR :: "searchResult list \<Rightarrow> string list \<Rightarrow> jsnum" where
  "calculateMRR results keywords = mrrLoop 0 results keywords"

subsection \<open>calculateNDCG\<close>

definition relevanceScore :: "string list \<Rightarrow> searchResult \<Rightarrow> jsnum" where
  "relevanceScore keywords result =
     (let text_lc = toLowerCase (payload_text result);
          matchedKeywords = filter (\<lambda>keyword. includes_str text_lc (toLowerCase keyword)) keywords
      in js_div (Num (real (length matchedKeywords))) (Num (real (length keywords))))"

text \<open>
  \<open>scores.reduce((sum, rel, i) => sum + rel / Math.log2(i + 2), 0)\<close>, from index
  \<open>i\<close> with the accumulator \<open>sum\<close>, here \<open>acc\<close>.
\<close>

fun dcgReduce :: "nat \<Rightarrow> jsnum \<Rightarrow> jsnum list \<Rightarrow> jsnum" where
  "dcgReduce i acc [] = acc"
| "dcgReduce i acc (rel # rels) =
     dcgReduce (i + 1) (js_add acc (js_div rel (js_log2 (Num (real (i + 2)))))) rels"

text \<open>
  \<open>Array.prototype.sort\<close> with a comparator, as a stable insertion sort: \<open>x\<close> goes
  behind \<open>y\<close> when the comparator's result is greater than zero (a NaN result counts
  as zero). The comparator of the code is \<open>(a, b) => b - a\<close>.
\<close>

fun sortInsert :: "(jsnum \<Rightarrow> jsnum \<Rightarrow> jsnum) \<Rightarrow> jsnum \<Rightarrow> jsnum list \<Rightarrow> jsnum list" where
  "sortInsert cmp x [] = [x]"
| "sortInsert cmp x (y # ys) =
     (if js_gt (cmp x y) (Num 0) then y # sortInsert cmp x ys else x # y # ys)"

definition js_sort :: "(jsnum \<Rightarrow> jsnum \<Rightarrow> jsnum) \<Rightarrow> jsnum list \<Rightarrow> jsnum list" where
  "js_sort cmp xs = foldr (sortInsert cmp) xs []"

definition descending :: "jsnum \<Rightarrow> jsnum \<Rightarrow> jsnum" where
  "descending a b = js_sub b a"

definition calculateNDCG :: "searchResult list \<Rightarrow> string list \<Rightarrow> jsnum" where
  "calculateNDCG results keywords =
     (let relevanceScores = map (relevanceScore keywords) results;
          dcg = dcgReduce 0 (Num 0) relevanceScores;
          idealScores = js_sort descending relevanceScores;
          idcg = dcgReduce 0 (Num 0) idealScores
      in if js_strict_eq idcg (Num 0) then Num 0 else js_div dcg idcg)"

subsection \<open>evaluateTestCase and runFullEvaluation\<close>

text \<open>A line of tests.jsonl (the field \<open>keywords\<close> is \<open>tc_keywords\<close> here).\<close>

record testCase =
  question :: string
  category :: string
  tc_keywords :: "string list"
  reference_answer :: string

record metricSet =
  keywordCoverage :: jsnum
  mrr :: jsnum
  ndcg :: jsnum

record categoryMetrics = metricSet +
  count :: nat

record chunkInfo =
  chunk_score :: real
  chunk_source :: string
  chunk_text :: string

text \<open>The per-query result object (fields prefixed, the names being those of \<open>testCase\<close>).\<close>

record evalResult =
  res_question :: string
  res_category :: string
  res_keywords :: "string list"
  res_reference_answer :: string
  metrics :: metricSet
  res_chunks :: "chunkInfo list"

record evaluation =
  totalQuestions :: nat
  aggregateMetrics :: metricSet
  metricsByCategory :: "string \<rightharpoonup> categoryMetrics"
  detailedResults :: "evalResult list"

text \<open>
  \<open>retrieveChunks\<close> (embedding the question and searching the vector store) is a
  parameter; it returns \<open>None\<close> when the call fails, and the failure propagates.
\<close>

definition evaluateTestCase ::
  "(string \<Rightarrow> nat \<Rightarrow> searchResult list option) \<Rightarrow> testCase \<Rightarrow> nat \<Rightarrow> evalResult option" where
  "evaluateTestCase retrieveChunks testCase limit =
     (case retrieveChunks (question testCase) limit of
        None \<Rightarrow> None
      | Some results \<Rightarrow>
          Some \<lparr> res_question = question testCase,
                 res_category = category testCase,
                 res_keywords = tc_keywords testCase,
                 res_reference_answer = reference_answer testCase,
                 metrics = \<lparr> keywordCoverage = calculateKeywordCoverage results (tc_keywords testCase),
                             mrr = calculateMRR results (tc_keywords testCase),
                             ndcg = calculateNDCG results (tc_keywords testCase) \<rparr>,
                 res_chunks = map (\<lambda>r. \<lparr> chunk_score = score r,
                                         chunk_source = payload_source r,
                                         chunk_text = payload_text r \<rparr>) results \<rparr>)"

text \<open>The first loop of \<open>runFullEvaluation\<close>: it stops at the first failing test case.\<close>

fun evaluateAll ::
  "(string \<Rightarrow> nat \<Rightarrow> searchResult list option) \<Rightarrow> nat \<Rightarrow> testCase list \<Rightarrow> evalResult list option" where
  "evaluateAll retrieveChunks limit [] = Some []"
| "evaluateAll retrieveChunks limit (testCase # rest) =
     (case evaluateTestCase retrieveChunks testCase limit of
        None \<Rightarrow> None
      | Some result \<Rightarrow>
          (case evaluateAll retrieveChunks limit rest of
             None \<Rightarrow> None
           | Some results \<Rightarrow> Some (result # results)))"

text \<open>\<open>rs.reduce((sum, r) => sum + r.metrics.m, 0) / rs.length\<close> for a metric \<open>m\<close>.\<close>

definition meanMetric :: "(metricSet \<Rightarrow> jsnum) \<Rightarrow> evalResult list \<Rightarrow> jsnum" where
  "meanMetric m rs =
     js_div (fold (\<lambda>r sum. js_add sum (m (metrics r))) rs (Num 0)) (Num (real (length rs)))"

text \<open>\<open>[...new Set(xs)]\<close>: the distinct elements in the order of their first occurrence.\<close>

definition distinctInOrder :: "'a list \<Rightarrow> 'a list" where
  "distinctInOrder xs = rev (remdups (rev xs))"

definition categoryEntry :: "evalResult list \<Rightarrow> string \<Rightarrow> categoryMetrics" where
  "categoryEntry results cat =
     (let categoryResults = filter (\<lambda>r. res_category r = cat) results
      in \<lparr> keywordCoverage = meanMetric keywordCoverage categoryResults,
           mrr = meanMetric mrr categoryResults,
           ndcg = meanMetric ndcg categoryResults,
           count = length categoryResults \<rparr>)"

definition aggregate :: "nat \<Rightarrow> evalResult list \<Rightarrow> evaluation" where
  "aggregate n results =
     (let aggregateMetrics = \<lparr> keywordCoverage = meanMetric keywordCoverage results,
                               mrr = meanMetric mrr results,
                               ndcg = meanMetric ndcg results \<rparr>;
          categories = distinctInOrder (map res_category results);
          metricsByCategory =
            fold (\<lambda>cat m. m(cat \<mapsto> categoryEntry results cat)) categories Map.empty
      in \<lparr> totalQuestions = n,
           aggregateMetrics = aggregateMetrics,
           metricsByCategory = metricsByCategory,
           detailedResults = results \<rparr>)"

text \<open>
  \<open>runFullEvaluation(testQuestions, limit)\<close>; the default \<open>limit = 3\<close> is the
  caller's to pass.
\<close>

definition runFullEvaluation ::
  "(string \<Rightarrow> nat \<Rightarrow> searchResult list option) \<Rightarrow> testCase list \<Rightarrow> nat \<Rightarrow> evaluation option" where
  "runFullEvaluation retrieveChunks testQuestions limit =
     (case evaluateAll retrieveChunks limit testQuestions of
        None \<Rightarrow> None
      | Some results \<Rightarrow> Some (aggregate (length testQuestions) results))"

text \<open>The relation between the loop and its instrumented copy.\<close>

definition stateRel :: "chunkState \<Rightarrow> groupState \<Rightarrow> bool" where
  "stateRel st g =
     (chunks st = map (joinWith '' '') (groups g)
      \<and> currentSentences st = groupSentences g \<and> currentTokens st = groupTokens g)"

text \<open>The invariant of the instrumented loop after \<open>k\<close> iterations.\<close>

definition groupInv :: "(string \<Rightarrow> nat) \<Rightarrow> jsnum \<Rightarrow> string list \<Rightarrow> nat \<Rightarrow> groupState \<Rightarrow> bool" where
  "groupInv e minT ss k g =
     (concat (groups g) @ groupSentences g = take k ss
      \<and> [] \<notin> set (groups g)
      \<and> groupTokens g = groupTokenCount e (groupSentences g)
      \<and> list_all (\<lambda>grp. js_ge (Num (real (groupTokenCount e grp))) minT) (groups g)
      \<and> (groupSentences g = [] \<longleftrightarrow> k = 0))"

section \<open>Notions used to state the properties\<close>

text \<open>
  The position of the first relevant result: \<open>i\<close> is in range, result \<open>i\<close> has a
  keyword, and no earlier result has one.
\<close>

definition firstRelevantAt :: "searchResult list \<Rightarrow> string list \<Rightarrow> nat \<Rightarrow> bool" where
  "firstRelevantAt results keywords i =
     (i < length results \<and> hasKeyword (results ! i) keywords
      \<and> (\<forall>j<i. \<not> hasKeyword (results ! j) keywords))"

text \<open>
  The specification's per-position relevance: the fraction of the keywords found,
  case-insensitively, in the text of the result.
\<close>

definition specRelevance :: "string list \<Rightarrow> searchResult \<Rightarrow> real" where
  "specRelevance keywords r =
     real (length (filter (\<lambda>k. sublist (toLowerCase k) (toLowerCase (payload_text r))) keywords))
       / real (length keywords)"

text \<open>
  The specification's DCG: the sum over the 0-indexed positions \<open>i\<close> of
  \<open>relevance\<^sub>i / log\<^sub>2 (i + 2)\<close>.
\<close>

definition specDCG :: "real list \<Rightarrow> real" where
  "specDCG rels = (\<Sum>i<length rels. rels ! i / log 2 (real i + 2))"

text \<open>A sum with position weights \<open>w\<close>, counted from position \<open>k\<close>.\<close>

definition weightedSum :: "(nat \<Rightarrow> real) \<Rightarrow> nat \<Rightarrow> real list \<Rightarrow> real" where
  "weightedSum w k xs = (\<Sum>j<length xs. xs ! j * w (k + j))"

text \<open>
  A number that is finite, and its value (\<open>numVal\<close> is only used on finite numbers).
\<close>

fun isNum :: "jsnum \<Rightarrow> bool" where
  "isNum (Num a) = True"
| "isNum x = False"

fun numVal :: "jsnum \<Rightarrow> real" where
  "numVal (Num a) = a"
| "numVal x = 0"

text \<open>
  The specification's arithmetic mean, in the arithmetic of the program's numbers: the sum
  of the values divided by their number.
\<close>

fun jsSum :: "jsnum list \<Rightarrow> jsnum" where
  "jsSum [] = Num 0"
| "jsSum (x # xs) = js_add x (jsSum xs)"

definition jsMean :: "jsnum list \<Rightarrow> jsnum" where
  "jsMean xs = js_div (jsSum xs) (Num (real (length xs)))"

section \<open>Example inputs\<close>

text \<open>
  The four-sentence document of the specification's scenario, with a segmenter that
  knows it, a tokenizer that counts words, and two topics embedded on two axes.
\<close>

definition demoSentences :: "string list" where
  "demoSentences = [''Paris is the capital of France.'', ''The Eiffel Tower is in Paris.'',
                    ''Cats are popular pets.'', ''Many people keep cats as companions.'']"

definition demoDocument :: string where
  "demoDocument = joinWith '' '' demoSentences"

definition demoSplit :: "string \<Rightarrow> string list" where
  "demoSplit t = (if t = demoDocument then demoSentences else [t])"

definition demoEncode :: "string \<Rightarrow> nat" where
  "demoEncode s = Suc (length (filter (\<lambda>c. c = CHR '' '') s))"

definition demoEmbed :: "string \<Rightarrow> real list option" where
  "demoEmbed s = (if s \<in> set (take 2 demoSentences) then Some [1, 0] else Some [0, 1])"

definition demoEmbeddings :: "real list list" where
  "demoEmbeddings = [[1, 0], [1, 0], [0, 1], [0, 1]]"

definition demoOptions :: options where
  "demoOptions =
     \<lparr> threshold = Some (Num 0.65), maxTokens = Some (Num 500), minTokens = Some (Num 3) \<rparr>"

text \<open>An embedding provider that returns the zero vector for the first two sentences.\<close>

definition zeroEmbed :: "string \<Rightarrow> real list option" where
  "zeroEmbed s = (if s \<in> set (take 2 demoSentences) then Some [0, 0] else Some [0, 1])"

text \<open>Two search results, a retrieval that returns them, and a test case.\<close>

definition ceoResult :: searchResult where
  "ceoResult = \<lparr> score = 0.9, payload_source = ''employees/Avery Lancaster.md'',
                  payload_text = ''Avery Lancaster is the CEO'' \<rparr>"

definition employeeResult :: searchResult where
  "employeeResult = \<lparr> score = 0.5, payload_source = ''employees/Lancaster.md'',
                       payload_text = ''Lancaster is an employee'' \<rparr>"

text \<open>Two results whose texts share no keyword but whose concatenation does.\<close>

definition abResult :: searchResult where
  "abResult = \<lparr> score = 0.8, payload_source = ''notes/ab.md'', payload_text = ''ab'' \<rparr>"

definition cdResult :: searchResult where
  "cdResult = \<lparr> score = 0.7, payload_source = ''notes/cd.md'', payload_text = ''cd'' \<rparr>"

definition demoRetrieve :: "string \<Rightarrow> nat \<Rightarrow> searchResult list option" where
  "demoRetrieve q limit = Some (take limit [employeeResult, ceoResult])"

definition demoQuestion :: testCase where
  "demoQuestion = \<lparr> question = ''Who is the CEO?'', category = ''direct_fact'',
                     tc_keywords = [''Avery'', ''CEO''], reference_answer = ''Avery Lancaster'' \<rparr>"

text \<open>Two more test cases, and the three together: two categories.\<close>

definition employeeQuestion :: testCase where
  "employeeQuestion = \<lparr> question = ''Who is an employee?'', category = ''direct_fact'',
                         tc_keywords = [''employee''], reference_answer = ''Lancaster'' \<rparr>"

definition otherQuestion :: testCase where
  "otherQuestion = \<lparr> question = ''What is xyz?'', category = ''other'',
                      tc_keywords = [''xyz''], reference_answer = ''unknown'' \<rparr>"

definition demoQuestions :: "testCase list" where
  "demoQuestions = [demoQuestion, employeeQuestion, otherQuestion]"

section \<open>Properties of the chunker\<close>

subsection \<open>NaN is absorbing\<close>

lemma js_add_NaN_right [simp]: "js_add x NaN = NaN"
  by (cases x) simp_all

lemma js_mul_NaN_right [simp]: "js_mul x NaN = NaN"
  by (cases x) simp_all

lemma js_div_NaN_right [simp]: "js_div x NaN = NaN"
  by (cases x) simp_all

lemma js_lt_NaN_right [simp]: "js_lt x NaN = False"
  by (cases x) simp_all

subsection \<open>cosineSimilarity in closed form\<close>

lemma cosFold_Suc:
  "fold (cosStep a b) [0..<Suc k] acc = cosStep a b k (fold (cosStep a b) [0..<k] acc)"
  by simp

lemma cosFold_finite:
  assumes "k \<le> length b"
  shows "fold (cosStep a b) [0..<k] \<lparr> dot = Num 0, normA = Num 0, normB = Num 0 \<rparr> =
           \<lparr> dot = Num (\<Sum>i<k. a ! i * b ! i),
             normA = Num (\<Sum>i<k. a ! i * a ! i),
             normB = Num (\<Sum>i<k. b ! i * b ! i) \<rparr>"
  using assms
proof (induction k)
  case 0
  show ?case by simp
next
  case (Suc k)
  then have "k < length b" by simp
  with Suc show ?case
    by (simp only: cosFold_Suc) (simp add: cosStep_def js_index_def)
qed

lemma dot_cosStep:
  "dot (cosStep a b i acc) = js_add (dot acc) (js_mul (Num (a ! i)) (js_index b i))"
  by (simp add: cosStep_def)

lemma cosFold_short:
  assumes "length b < k"
  shows "dot (fold (cosStep a b) [0..<k] acc) = NaN"
  using assms
proof (induction k)
  case 0
  then show ?case by simp
next
  case (Suc k)
  show ?case
  proof (cases "length b < k")
    case True
    with Suc.IH show ?thesis
      by (simp only: cosFold_Suc dot_cosStep) simp
  next
    case False
    with Suc.prems have "k = length b" by simp
    then show ?thesis
      by (simp only: cosFold_Suc dot_cosStep) (simp add: js_index_def)
  qed
qed

lemma cosineSimilarity_short:
  assumes "length b < length a"
  shows "cosineSimilarity a b = NaN"
  using cosFold_short [OF assms] by (simp add: cosineSimilarity_def Let_def)

lemma cosineSimilarity_finite:
  assumes "length a \<le> length b"
  shows "cosineSimilarity a b =
           js_div (Num (\<Sum>i<length a. a ! i * b ! i))
             (Num (sqrt (\<Sum>i<length a. a ! i * a ! i) * sqrt (\<Sum>i<length a. b ! i * b ! i)))"
proof -
  have "(0::real) \<le> (\<Sum>i<length a. a ! i * a ! i)" "(0::real) \<le> (\<Sum>i<length a. b ! i * b ! i)"
    by (simp_all add: sum_nonneg)
  then show ?thesis
    using cosFold_finite [OF assms]
    by (simp add: cosineSimilarity_def Let_def not_less [symmetric] del: not_less)
qed

lemma cosineSimilarity_zero:
  assumes "(\<forall>x \<in> set a. x = 0) \<or> (\<forall>x \<in> set b. x = 0)"
  shows "cosineSimilarity a b = NaN"
proof (cases "length b < length a")
  case True
  then show ?thesis by (rule cosineSimilarity_short)
next
  case False
  then have le: "length a \<le> length b" by simp
  from assms have "(\<forall>i<length a. a ! i = 0) \<or> (\<forall>i<length a. b ! i = 0)"
    using le by (auto simp: all_set_conv_all_nth)
  then have "(\<Sum>i<length a. a ! i * b ! i) = 0
     \<and> ((\<Sum>i<length a. a ! i * a ! i) = 0 \<or> (\<Sum>i<length a. b ! i * b ! i) = 0)"
    by auto
  then show ?thesis
    by (auto simp: cosineSimilarity_finite [OF le])
qed

subsection \<open>The loop and its instrumented copy\<close>

lemma chunkStep_groupStep:
  assumes "stateRel st g"
  shows "stateRel (chunkStep e thr maxT minT ss es i st) (groupStep e thr maxT minT ss es i g)"
  using assms by (simp add: stateRel_def chunkStep_def groupStep_def Let_def)

lemma fold_chunkStep_groupStep:
  assumes "stateRel st g"
  shows "stateRel (fold (chunkStep e thr maxT minT ss es) is st)
                  (fold (groupStep e thr maxT minT ss es) is g)"
  using assms by (induction "is" arbitrary: st g) (simp_all add: chunkStep_groupStep)

lemma chunkLoop_groupLoop:
  "stateRel (chunkLoop e thr maxT minT ss es k) (groupLoop e thr maxT minT ss es k)"
  unfolding chunkLoop_def groupLoop_def
  by (rule fold_chunkStep_groupStep) (simp add: stateRel_def initState_def initGroups_def)

lemma finishChunks_finishGroups:
  "stateRel st g \<Longrightarrow> finishChunks st = map (joinWith '' '') (finishGroups g)"
  by (simp add: stateRel_def finishChunks_def finishGroups_def)

lemma groupLoop_0: "groupLoop e thr maxT minT ss es 0 = initGroups"
  by (simp add: groupLoop_def)

lemma groupLoop_Suc:
  "groupLoop e thr maxT minT ss es (Suc k) =
     groupStep e thr maxT minT ss es k (groupLoop e thr maxT minT ss es k)"
  by (simp add: groupLoop_def)

lemma groupStep_inv:
  assumes "groupInv e minT ss k g" and "k < length ss"
  shows "groupInv e minT ss (Suc k) (groupStep e thr maxT minT ss es k g)"
  using assms
  by (auto simp: groupInv_def groupStep_def Let_def take_Suc_conv_app_nth groupTokenCount_def)

lemma groupLoop_inv:
  "k \<le> length ss \<Longrightarrow> groupInv e minT ss k (groupLoop e thr maxT minT ss es k)"
proof (induction k)
  case 0
  show ?case by (simp add: groupLoop_0 groupInv_def initGroups_def groupTokenCount_def)
next
  case (Suc k)
  then show ?case by (simp add: groupLoop_Suc groupStep_inv)
qed

subsection \<open>The result in terms of sentence groups\<close>

lemma those_map_Some: "those (map Some xs) = Some xs"
  by (induction xs) simp_all

lemma those_embed:
  assumes "\<forall>s \<in> set ss. embedFn s \<noteq> None"
  shows "those (map embedFn ss) = Some (map (\<lambda>s. the (embedFn s)) ss)"
  using assms by (induction ss) auto

lemma those_embed_fail:
  assumes "\<exists>s \<in> set ss. embedFn s = None"
  shows "those (map embedFn ss) = None"
  using assms by (induction ss) (auto split: option.splits)

lemma semanticChunk_groups:
  assumes "those (map embedFn (seg t)) = Some es"
  shows "semanticChunkWithLimits seg e t embedFn opts =
           Some (map (joinWith '' '') (sentenceGroups e opts (seg t) es))"
  using assms
  by (simp add: semanticChunkWithLimits_def sentenceGroups_def Let_def
      finishChunks_finishGroups [OF chunkLoop_groupLoop])

lemma semanticChunk_eval:
  assumes "seg t = ss"
    and "those (map embedFn ss) = Some es"
    and "chunkLoop e (optThreshold opts) (optMaxTokens opts) (optMinTokens opts)
           ss es (length ss) = st"
  shows "semanticChunkWithLimits seg e t embedFn opts = Some (finishChunks st)"
  using assms by (simp add: semanticChunkWithLimits_def Let_def)

lemma semanticChunk_fails:
  assumes "\<exists>s \<in> set (seg t). embedFn s = None"
  shows "semanticChunkWithLimits seg e t embedFn opts = None"
  using those_embed_fail [OF assms] by (simp add: semanticChunkWithLimits_def Let_def)

lemma sentenceGroups_concat: "concat (sentenceGroups e opts ss es) = ss"
  using groupLoop_inv [of "length ss" ss e "optMinTokens opts" "optThreshold opts" "optMaxTokens opts" es]
  by (auto simp: sentenceGroups_def finishGroups_def groupInv_def)

lemma sentenceGroups_nonempty: "[] \<notin> set (sentenceGroups e opts ss es)"
  using groupLoop_inv [of "length ss" ss e "optMinTokens opts" "optThreshold opts" "optMaxTokens opts" es]
  by (auto simp: sentenceGroups_def finishGroups_def groupInv_def)

lemma sentenceGroups_minTokens:
  "\<forall>g \<in> set (butlast (sentenceGroups e opts ss es)).
      js_ge (Num (real (groupTokenCount e g))) (optMinTokens opts)"
  using groupLoop_inv [of "length ss" ss e "optMinTokens opts" "optThreshold opts" "optMaxTokens opts" es]
  by (auto simp: sentenceGroups_def finishGroups_def groupInv_def list_all_iff dest: in_set_butlastD)

subsection \<open>Unfolding the loop\<close>

lemma chunkLoop_0: "chunkLoop e thr maxT minT ss es 0 = initState"
  by (simp add: chunkLoop_def)

lemma chunkLoop_Suc:
  "chunkLoop e thr maxT minT ss es (Suc k) =
     chunkStep e thr maxT minT ss es k (chunkLoop e thr maxT minT ss es k)"
  by (simp add: chunkLoop_def)

lemma chunkStep_nonempty: "currentSentences (chunkStep e thr maxT minT ss es i st) \<noteq> []"
  by (simp add: chunkStep_def Let_def)

lemma chunkLoop_nonempty: "0 < k \<Longrightarrow> currentSentences (chunkLoop e thr maxT minT ss es k) \<noteq> []"
  by (cases k) (simp_all add: chunkLoop_Suc chunkStep_nonempty)

subsection \<open>The example document\<close>

lemma demo_cos [simp]:
  "cosineSimilarity [1, 0] [1, 0] = Num 1"
  "cosineSimilarity [1, 0] [0, 1] = Num 0"
  "cosineSimilarity [0, 1] [0, 1] = Num 1"
  by (simp_all add: cosineSimilarity_finite lessThan_Suc numeral_2_eq_2)

lemma zero_cos [simp]:
  "cosineSimilarity [0, 0] [0, 0] = NaN" "cosineSimilarity [0, 0] [0, 1] = NaN"
  by (simp_all add: cosineSimilarity_zero)

lemma demo_embeds: "map demoEmbed demoSentences = map Some demoEmbeddings"
  by (simp add: demoEmbed_def demoSentences_def demoEmbeddings_def)

lemma demoSplit_document [simp]: "demoSplit demoDocument = demoSentences"
  by (simp add: demoSplit_def)

lemma demo_embed_ok: "\<forall>s \<in> set (demoSplit demoDocument). demoEmbed s \<noteq> None"
  by (simp add: demoEmbed_def)

lemma demo_options [simp]:
  "optThreshold demoOptions = Num 0.65" "optMaxTokens demoOptions = Num 500"
  "optMinTokens demoOptions = Num 3"
  by (simp_all add: demoOptions_def optThreshold_def optMaxTokens_def optMinTokens_def)

lemma demo_those: "those (map demoEmbed demoSentences) = Some demoEmbeddings"
  by (simp add: demo_embeds those_map_Some)

lemma demo_loop:
  "chunkLoop demoEncode (optThreshold demoOptions) (optMaxTokens demoOptions)
     (optMinTokens demoOptions) demoSentences demoEmbeddings (length demoSentences) =
     \<lparr> chunks = [''Paris is the capital of France. The Eiffel Tower is in Paris.''],
       currentSentences = [''Cats are popular pets.'', ''Many people keep cats as companions.''],
       currentTokens = 10 \<rparr>"
  by (simp add: chunkLoop_Suc chunkLoop_0 chunkStep_def initState_def Let_def
      shouldSplit_def js_gt_def demoSentences_def demoEmbeddings_def demoEncode_def)

lemma demo_chunks:
  "semanticChunkWithLimits demoSplit demoEncode demoDocument demoEmbed demoOptions =
     Some [''Paris is the capital of France. The Eiffel Tower is in Paris.'',
           ''Cats are popular pets. Many people keep cats as companions.'']"
  by (simp add: semanticChunk_eval [where seg = demoSplit and t = demoDocument, OF demoSplit_document demo_those demo_loop] finishChunks_def)

lemma zero_those:
  "those (map zeroEmbed demoSentences) = Some [[0, 0], [0, 0], [0, 1], [0, 1]]"
  by (simp add: zeroEmbed_def demoSentences_def)

lemma zero_loop:
  "chunkLoop demoEncode (optThreshold demoOptions) (optMaxTokens demoOptions)
     (optMinTokens demoOptions) demoSentences [[0, 0], [0, 0], [0, 1], [0, 1]]
     (length demoSentences) =
     \<lparr> chunks = [],
       currentSentences = [''Paris is the capital of France.'', ''The Eiffel Tower is in Paris.'',
                           ''Cats are popular pets.'', ''Many people keep cats as companions.''],
       currentTokens = 22 \<rparr>"
  by (simp add: chunkLoop_Suc chunkLoop_0 chunkStep_def initState_def Let_def
      shouldSplit_def js_gt_def demoSentences_def demoEncode_def)

subsection \<open>The claims about the chunker\<close>

text \<open>
  Claim C1. Whenever every sentence is embedded, \<open>semanticChunkWithLimits\<close> returns
  chunks, each the join of a non-empty group of sentences, and the groups, concatenated in
  output order, are exactly the sentence list of the segmenter: no sentence is duplicated,
  dropped or reordered.
\<close>

theorem chunks_partition_sentences:
  assumes "\<forall>s \<in> set (splitIntoSentences text_in). embedFn s \<noteq> None"
  shows "\<exists>embs. map embedFn (splitIntoSentences text_in) = map Some embs
           \<and> semanticChunkWithLimits splitIntoSentences encodeLen text_in embedFn opts =
               Some (map (joinWith '' '')
                      (sentenceGroups encodeLen opts (splitIntoSentences text_in) embs))
           \<and> concat (sentenceGroups encodeLen opts (splitIntoSentences text_in) embs) =
               splitIntoSentences text_in
           \<and> [] \<notin> set (sentenceGroups encodeLen opts (splitIntoSentences text_in) embs)"
proof -
  let ?ss = "splitIntoSentences text_in"
  let ?es = "map (\<lambda>s. the (embedFn s)) ?ss"
  have m: "map embedFn ?ss = map Some ?es"
    using assms by auto
  have "those (map embedFn ?ss) = Some ?es"
    using assms by (rule those_embed)
  then have "semanticChunkWithLimits splitIntoSentences encodeLen text_in embedFn opts =
      Some (map (joinWith '' '') (sentenceGroups encodeLen opts ?ss ?es))"
    by (rule semanticChunk_groups)
  with m sentenceGroups_concat sentenceGroups_nonempty show ?thesis
    by blast
qed

text \<open>Claim C1 at the example document.\<close>

theorem chunks_partition_sentences_witness:
  "(\<exists>embs. map demoEmbed (demoSplit demoDocument) = map Some embs
           \<and> semanticChunkWithLimits demoSplit demoEncode demoDocument demoEmbed demoOptions =
               Some (map (joinWith '' '')
                      (sentenceGroups demoEncode demoOptions (demoSplit demoDocument) embs))
           \<and> concat (sentenceGroups demoEncode demoOptions (demoSplit demoDocument) embs) =
               demoSplit demoDocument
           \<and> [] \<notin> set (sentenceGroups demoEncode demoOptions (demoSplit demoDocument) embs))"
  using demo_embed_ok
    chunks_partition_sentences [where splitIntoSentences = demoSplit and text_in = demoDocument
      and embedFn = demoEmbed and encodeLen = demoEncode and opts = demoOptions]
  by blast

text \<open>
  Claim C2. The loop starts from the empty state; the first sentence opens the current chunk
  unconditionally; for every later sentence \<open>i\<close> the split is a candidate exactly when
  the cosine similarity of its embedding with that of sentence \<open>i - 1\<close> is below the
  threshold or the running token total plus its token count exceeds \<open>maxTokens\<close>; the
  candidate is committed (current chunk emitted, new chunk started with this sentence) if and
  only if the running token total is at least \<open>minTokens\<close>, and otherwise the sentence
  is appended to the current chunk. \<open>semanticChunkWithLimits\<close> returns the chunks of
  the state after the last sentence, followed by the current chunk.
\<close>

theorem split_decision:
  "chunkLoop encodeLen thr maxT minT sentences embs 0 = initState
   \<and> (0 < length sentences \<longrightarrow>
        chunkLoop encodeLen thr maxT minT sentences embs 1 =
          \<lparr> chunks = [], currentSentences = [sentences ! 0],
            currentTokens = encodeLen (sentences ! 0) \<rparr>)
   \<and> (\<forall>i. 1 \<le> i \<and> i < length sentences \<longrightarrow>
        chunkLoop encodeLen thr maxT minT sentences embs (Suc i) =
          (let st = chunkLoop encodeLen thr maxT minT sentences embs i;
               sent = sentences ! i;
               sentTokens = encodeLen sent;
               candidate = (js_lt (cosineSimilarity (embs ! (i - 1)) (embs ! i)) thr
                            \<or> js_gt (Num (real (currentTokens st + sentTokens))) maxT)
           in if candidate \<and> js_ge (Num (real (currentTokens st))) minT
              then \<lparr> chunks = chunks st @ [joinWith '' '' (currentSentences st)],
                     currentSentences = [sent], currentTokens = sentTokens \<rparr>
              else \<lparr> chunks = chunks st, currentSentences = currentSentences st @ [sent],
                     currentTokens = currentTokens st + sentTokens \<rparr>))
   \<and> (splitIntoSentences text_in = sentences \<and> those (map embedFn sentences) = Some embs \<longrightarrow>
        semanticChunkWithLimits splitIntoSentences encodeLen text_in embedFn opts =
          Some (finishChunks
                 (chunkLoop encodeLen (optThreshold opts) (optMaxTokens opts) (optMinTokens opts)
                    sentences embs (length sentences))))"
proof -
  have start: "chunkLoop encodeLen thr maxT minT sentences embs 0 = initState"
    by (rule chunkLoop_0)
  have first: "chunkLoop encodeLen thr maxT minT sentences embs 1 =
       \<lparr> chunks = [], currentSentences = [sentences ! 0],
         currentTokens = encodeLen (sentences ! 0) \<rparr>"
    by (simp add: chunkLoop_def chunkStep_def initState_def Let_def)
  have later: "chunkLoop encodeLen thr maxT minT sentences embs (Suc i) =
          (let st = chunkLoop encodeLen thr maxT minT sentences embs i;
               sent = sentences ! i;
               sentTokens = encodeLen sent;
               candidate = (js_lt (cosineSimilarity (embs ! (i - 1)) (embs ! i)) thr
                            \<or> js_gt (Num (real (currentTokens st + sentTokens))) maxT)
           in if candidate \<and> js_ge (Num (real (currentTokens st))) minT
              then \<lparr> chunks = chunks st @ [joinWith '' '' (currentSentences st)],
                     currentSentences = [sent], currentTokens = sentTokens \<rparr>
              else \<lparr> chunks = chunks st, currentSentences = currentSentences st @ [sent],
                     currentTokens = currentTokens st + sentTokens \<rparr>)"
    if i: "1 \<le> i \<and> i < length sentences" for i
  proof -
    from i have "currentSentences (chunkLoop encodeLen thr maxT minT sentences embs i) \<noteq> []"
      by (simp add: chunkLoop_nonempty)
    then show ?thesis
      by (simp add: chunkLoop_Suc chunkStep_def shouldSplit_def Let_def)
  qed
  have whole: "semanticChunkWithLimits splitIntoSentences encodeLen text_in embedFn opts =
          Some (finishChunks
                 (chunkLoop encodeLen (optThreshold opts) (optMaxTokens opts) (optMinTokens opts)
                    sentences embs (length sentences)))"
    if "splitIntoSentences text_in = sentences \<and> those (map embedFn sentences) = Some embs"
    using that by (simp add: semanticChunkWithLimits_def Let_def)
  from start first later whole show ?thesis
    by blast
qed

text \<open>Claim C2 at the example document: the third sentence changes topic and is split off.\<close>

theorem split_decision_witness:
  "1 \<le> (2::nat) \<and> 2 < length demoSentences
   \<and> chunkLoop demoEncode (Num 0.65) (Num 500) (Num 3) demoSentences demoEmbeddings 2 =
       \<lparr> chunks = [],
         currentSentences = [''Paris is the capital of France.'', ''The Eiffel Tower is in Paris.''],
         currentTokens = 12 \<rparr>
   \<and> chunkLoop demoEncode (Num 0.65) (Num 500) (Num 3) demoSentences demoEmbeddings 3 =
       \<lparr> chunks = [''Paris is the capital of France. The Eiffel Tower is in Paris.''],
         currentSentences = [''Cats are popular pets.''],
         currentTokens = 4 \<rparr>
   \<and> semanticChunkWithLimits demoSplit demoEncode demoDocument demoEmbed demoOptions =
       Some [''Paris is the capital of France. The Eiffel Tower is in Paris.'',
             ''Cats are popular pets. Many people keep cats as companions.'']"
proof -
  have two: "chunkLoop demoEncode (Num 0.65) (Num 500) (Num 3) demoSentences demoEmbeddings 2 =
       \<lparr> chunks = [],
         currentSentences = [''Paris is the capital of France.'', ''The Eiffel Tower is in Paris.''],
         currentTokens = 12 \<rparr>"
    by (simp add: eval_nat_numeral chunkLoop_Suc chunkLoop_0 chunkStep_def initState_def Let_def
      shouldSplit_def js_gt_def demoSentences_def demoEmbeddings_def demoEncode_def)
  have range: "1 \<le> (2::nat) \<and> 2 < length demoSentences"
    by (simp add: demoSentences_def)
  from split_decision [of demoEncode "Num 0.65" "Num 500" "Num 3" demoSentences demoEmbeddings]
  have "1 \<le> (2::nat) \<and> 2 < length demoSentences \<longrightarrow>
        chunkLoop demoEncode (Num 0.65) (Num 500) (Num 3) demoSentences demoEmbeddings (Suc 2) =
          (let st = chunkLoop demoEncode (Num 0.65) (Num 500) (Num 3) demoSentences demoEmbeddings 2;
               sent = demoSentences ! 2;
               sentTokens = demoEncode sent;
               candidate = (js_lt (cosineSimilarity (demoEmbeddings ! (2 - 1)) (demoEmbeddings ! 2)) (Num 0.65)
                            \<or> js_gt (Num (real (currentTokens st + sentTokens))) (Num 500))
           in if candidate \<and> js_ge (Num (real (currentTokens st))) (Num 3)
              then \<lparr> chunks = chunks st @ [joinWith '' '' (currentSentences st)],
                     currentSentences = [sent], currentTokens = sentTokens \<rparr>
              else \<lparr> chunks = chunks st, currentSentences = currentSentences st @ [sent],
                     currentTokens = currentTokens st + sentTokens \<rparr>)"
    by blast
  with range two
  have "chunkLoop demoEncode (Num 0.65) (Num 500) (Num 3) demoSentences demoEmbeddings (Suc 2) =
       \<lparr> chunks = [''Paris is the capital of France. The Eiffel Tower is in Paris.''],
         currentSentences = [''Cats are popular pets.''],
         currentTokens = 4 \<rparr>"
    by (simp add: Let_def demoSentences_def demoEmbeddings_def demoEncode_def js_gt_def)
  with two range demo_chunks show ?thesis
    by (simp add: eval_nat_numeral)
qed

text \<open>
  Claim C5, as stated, fails: with zero vectors for the first two sentences the similarity is
  NaN, the comparison with the threshold is false, no split is a candidate although 6 tokens
  have been accumulated (\<open>minTokens\<close> is 3), and the whole document comes back as one
  chunk.
\<close>

theorem zero_embedding_counterexample:
  "cosineSimilarity [0, 0] [0, 0] = NaN
   \<and> \<not> shouldSplit (cosineSimilarity [0, 0] [0, 0]) (Num 0.65) 6 6 (Num 500)
   \<and> semanticChunkWithLimits demoSplit demoEncode demoDocument zeroEmbed demoOptions =
       Some [''Paris is the capital of France. The Eiffel Tower is in Paris. Cats are popular pets. Many people keep cats as companions.'']"
  by (simp add: semanticChunk_eval [where seg = demoSplit and t = demoDocument, OF demoSplit_document zero_those zero_loop] finishChunks_def shouldSplit_def
      js_gt_def)

text \<open>
  Claim C5, amended. When either of the two compared embeddings is an all-zero vector,
  \<open>cosineSimilarity\<close> is NaN; the chunker has no guard, the NaN reaches the comparison
  \<open>similarity < threshold\<close>, which is false for every threshold, so the pair never makes
  a split a candidate through the similarity: the split is a candidate exactly when the
  running token total plus the sentence's token count exceeds \<open>maxTokens\<close>, and when
  it does not, the sentence is appended to the current chunk.
\<close>

theorem zero_embedding_no_split:
  assumes "(\<forall>x \<in> set a. x = 0) \<or> (\<forall>x \<in> set b. x = 0)"
  shows "cosineSimilarity a b = NaN
     \<and> shouldSplit (cosineSimilarity a b) thr curTokens sentTokens maxT =
         js_gt (Num (real (curTokens + sentTokens))) maxT
     \<and> (1 \<le> i \<and> i < length sentences \<and> embs ! (i - 1) = a \<and> embs ! i = b
          \<and> \<not> js_gt (Num (real (currentTokens (chunkLoop encodeLen thr maxT minT sentences embs i)
                                  + encodeLen (sentences ! i)))) maxT
        \<longrightarrow> chunkLoop encodeLen thr maxT minT sentences embs (Suc i) =
              (chunkLoop encodeLen thr maxT minT sentences embs i)
                \<lparr> currentSentences :=
                    currentSentences (chunkLoop encodeLen thr maxT minT sentences embs i)
                      @ [sentences ! i],
                  currentTokens :=
                    currentTokens (chunkLoop encodeLen thr maxT minT sentences embs i)
                      + encodeLen (sentences ! i) \<rparr>)"
proof -
  have nan: "cosineSimilarity a b = NaN"
    using assms by (rule cosineSimilarity_zero)
  then show ?thesis
    by (simp add: shouldSplit_def chunkLoop_Suc chunkStep_def Let_def)
qed

text \<open>Claim C5, amended, at a zero vector against a unit vector.\<close>

theorem zero_embedding_no_split_witness:
  "cosineSimilarity [0, 0] [0, 1] = NaN
   \<and> \<not> shouldSplit (cosineSimilarity [0, 0] [0, 1]) (Num 0.65) 12 4 (Num 500)
   \<and> chunkLoop demoEncode (Num 0.65) (Num 500) (Num 3) demoSentences
         [[0, 0], [0, 0], [0, 1], [0, 1]] 2 =
       \<lparr> chunks = [],
         currentSentences = [''Paris is the capital of France.'', ''The Eiffel Tower is in Paris.''],
         currentTokens = 12 \<rparr>"
proof -
  have h: "(\<forall>x \<in> set [0, 0]. x = (0::real)) \<or> (\<forall>x \<in> set [0, 1]. x = (0::real))"
    by simp
  have h': "(\<forall>x \<in> set [0, 0]. x = (0::real)) \<or> (\<forall>x \<in> set [0, 0]. x = (0::real))"
    by simp
  have one: "chunkLoop demoEncode (Num 0.65) (Num 500) (Num 3) demoSentences
         [[0, 0], [0, 0], [0, 1], [0, 1]] 1 =
       \<lparr> chunks = [], currentSentences = [''Paris is the capital of France.''],
         currentTokens = 6 \<rparr>"
    by (simp add: chunkLoop_Suc chunkLoop_0 chunkStep_def initState_def Let_def
        demoSentences_def demoEncode_def)
  from zero_embedding_no_split [OF h, of "Num 0.65" 12 4 "Num 500"]
  have a: "cosineSimilarity [0, 0] [0, 1] = NaN
      \<and> \<not> shouldSplit (cosineSimilarity [0, 0] [0, 1]) (Num 0.65) 12 4 (Num 500)"
    by (simp add: js_gt_def)
  from zero_embedding_no_split [OF h', where i = 1 and sentences = demoSentences
      and embs = "[[0, 0], [0, 0], [0, 1], [0, 1]]" and encodeLen = demoEncode
      and thr = "Num 0.65" and maxT = "Num 500" and minT = "Num 3"] one
  have "chunkLoop demoEncode (Num 0.65) (Num 500) (Num 3) demoSentences
         [[0, 0], [0, 0], [0, 1], [0, 1]] (Suc 1) =
       \<lparr> chunks = [],
         currentSentences = [''Paris is the capital of France.'', ''The Eiffel Tower is in Paris.''],
         currentTokens = 12 \<rparr>"
    by (simp add: js_gt_def demoSentences_def demoEncode_def)
  with a show ?thesis
    by (simp add: eval_nat_numeral)
qed

text \<open>
  Claim C10. Every chunk that \<open>semanticChunkWithLimits\<close> emits, except possibly the
  last, has a token count (the sum of its sentences' token counts) of at least
  \<open>minTokens\<close>. This holds for the first chunk too, so the exception the claim allows
  for it is never needed.
\<close>

theorem nonfinal_chunks_reach_minTokens:
  assumes "\<forall>s \<in> set (splitIntoSentences text_in). embedFn s \<noteq> None"
  shows "\<exists>embs. map embedFn (splitIntoSentences text_in) = map Some embs
           \<and> semanticChunkWithLimits splitIntoSentences encodeLen text_in embedFn opts =
               Some (map (joinWith '' '')
                      (sentenceGroups encodeLen opts (splitIntoSentences text_in) embs))
           \<and> (\<forall>g \<in> set (butlast (sentenceGroups encodeLen opts (splitIntoSentences text_in) embs)).
                 js_ge (Num (real (groupTokenCount encodeLen g))) (optMinTokens opts))"
proof -
  let ?ss = "splitIntoSentences text_in"
  let ?es = "map (\<lambda>s. the (embedFn s)) ?ss"
  have m: "map embedFn ?ss = map Some ?es"
    using assms by auto
  have "those (map embedFn ?ss) = Some ?es"
    using assms by (rule those_embed)
  then have "semanticChunkWithLimits splitIntoSentences encodeLen text_in embedFn opts =
      Some (map (joinWith '' '') (sentenceGroups encodeLen opts ?ss ?es))"
    by (rule semanticChunk_groups)
  with m sentenceGroups_minTokens [of encodeLen opts ?ss ?es] show ?thesis
    by blast
qed

text \<open>Claim C10 at the example document.\<close>

theorem nonfinal_chunks_reach_minTokens_witness:
  "(\<exists>embs. map demoEmbed (demoSplit demoDocument) = map Some embs
           \<and> semanticChunkWithLimits demoSplit demoEncode demoDocument demoEmbed demoOptions =
               Some (map (joinWith '' '')
                      (sentenceGroups demoEncode demoOptions (demoSplit demoDocument) embs))
           \<and> (\<forall>g \<in> set (butlast (sentenceGroups demoEncode demoOptions (demoSplit demoDocument) embs)).
                 js_ge (Num (real (groupTokenCount demoEncode g))) (optMinTokens demoOptions)))"
  using demo_embed_ok
    nonfinal_chunks_reach_minTokens [where splitIntoSentences = demoSplit and text_in = demoDocument
      and embedFn = demoEmbed and encodeLen = demoEncode and opts = demoOptions]
  by blast

section \<open>Properties of the retrieval metrics\<close>

subsection \<open>Substrings\<close>

lemma isPrefix_prefix: "isPrefix xs ys = prefix xs ys"
  by (induction xs ys rule: isPrefix.induct) simp_all

lemma includes_str_sublist: "includes_str hay needle = sublist needle hay"
  by (induction hay) (simp_all add: isPrefix_prefix sublist_Cons_right)

lemma sublist_map_mono: "sublist xs ys \<Longrightarrow> sublist (map f xs) (map f ys)"
proof -
  assume "sublist xs ys"
  then obtain ps ss where "ys = ps @ xs @ ss" by (auto simp: sublist_def)
  then have "map f ys = map f ps @ map f xs @ map f ss" by simp
  then show ?thesis unfolding sublist_def by blast
qed

lemma sublist_toLowerCase: "sublist xs ys \<Longrightarrow> sublist (toLowerCase xs) (toLowerCase ys)"
  by (simp add: toLowerCase_def sublist_map_mono)

lemma sublist_joinWith: "x \<in> set xs \<Longrightarrow> sublist x (joinWith sep xs)"
proof (induction sep xs rule: joinWith.induct)
  case (1 sep)
  then show ?case by simp
next
  case (2 sep x')
  then show ?case by simp
next
  case (3 sep x' y ys)
  show ?case
  proof (cases "x = x'")
    case True
    then show ?thesis by simp
  next
    case False
    with 3 have "sublist x (joinWith sep (y # ys))" by simp
    then have "sublist x ((x' @ sep) @ joinWith sep (y # ys))"
      by (rule sublist_order.order_trans) (rule sublist_append_leftI)
    then show ?thesis by simp
  qed
qed

subsection \<open>Keyword coverage\<close>

lemma calculateKeywordCoverage_formula:
  assumes "keywords \<noteq> []"
  shows "calculateKeywordCoverage results keywords =
     Num (real (length (filter
            (\<lambda>k. sublist (toLowerCase k)
                   (joinWith '' '' (map (\<lambda>r. toLowerCase (payload_text r)) results)))
            keywords))
          / real (length keywords))"
  using assms by (simp add: calculateKeywordCoverage_def Let_def includes_str_sublist)

lemma keyword_found:
  assumes "r \<in> set results" and "sublist (toLowerCase k) (toLowerCase (payload_text r))"
  shows "includes_str (joinWith '' '' (map (\<lambda>r. toLowerCase (payload_text r)) results))
           (toLowerCase k)"
proof -
  from assms(1)
  have "toLowerCase (payload_text r) \<in> set (map (\<lambda>r. toLowerCase (payload_text r)) results)"
    by simp
  then have "sublist (toLowerCase (payload_text r))
      (joinWith '' '' (map (\<lambda>r. toLowerCase (payload_text r)) results))"
    by (rule sublist_joinWith)
  with assms(2) show ?thesis
    unfolding includes_str_sublist by (rule sublist_order.order_trans)
qed

lemma avery_in_text:
  "sublist (toLowerCase ''Avery'') (toLowerCase ''Avery Lancaster is the CEO'')"
  "sublist (toLowerCase ''CEO'') (toLowerCase ''Avery Lancaster is the CEO'')"
  unfolding includes_str_sublist [symmetric] by code_simp+

lemma coverage_avery_ceo:
  assumes "r \<in> set results" and "sublist ''Avery Lancaster is the CEO'' (payload_text r)"
  shows "calculateKeywordCoverage results [''Avery'', ''CEO''] = Num 1"
proof -
  from assms(2)
  have t: "sublist (toLowerCase ''Avery Lancaster is the CEO'') (toLowerCase (payload_text r))"
    by (rule sublist_toLowerCase)
  have "sublist (toLowerCase ''Avery'') (toLowerCase (payload_text r))"
    using avery_in_text(1) t by (rule sublist_order.order_trans)
  moreover have "sublist (toLowerCase ''CEO'') (toLowerCase (payload_text r))"
    using avery_in_text(2) t by (rule sublist_order.order_trans)
  ultimately show ?thesis
    using assms(1) by (simp add: calculateKeywordCoverage_def Let_def keyword_found)
qed

lemma coverage_employee:
  "calculateKeywordCoverage
     [\<lparr> score = s, payload_source = src, payload_text = ''Lancaster is an employee'' \<rparr>]
     [''Avery'', ''CEO''] = Num 0"
proof -
  have "toLowerCase ''Lancaster is an employee'' = ''lancaster is an employee''"
       "toLowerCase ''Avery'' = ''avery''" "toLowerCase ''CEO'' = ''ceo''"
    by code_simp+
  then show ?thesis
    by (simp add: calculateKeywordCoverage_def Let_def)
qed

subsection \<open>Reciprocal rank\<close>

lemma hasKeyword_iff:
  "hasKeyword r keywords \<longleftrightarrow>
     (\<exists>k \<in> set keywords. sublist (toLowerCase k) (toLowerCase (payload_text r)))"
  by (simp add: hasKeyword_def Let_def list_ex_iff includes_str_sublist)

lemma mrrLoop_none:
  "\<forall>r \<in> set rs. \<not> hasKeyword r keywords \<Longrightarrow> mrrLoop i rs keywords = Num 0"
  by (induction rs arbitrary: i) simp_all

lemma mrrLoop_first:
  assumes "j < length rs" and "hasKeyword (rs ! j) kws"
    and "\<forall>k<j. \<not> hasKeyword (rs ! k) kws"
  shows "mrrLoop i rs kws = Num (1 / real (i + j + 1))"
  using assms
proof (induction rs arbitrary: i j)
  case Nil
  then show ?case by simp
next
  case (Cons r rs)
  show ?case
  proof (cases j)
    case 0
    with Cons.prems show ?thesis by simp
  next
    case (Suc j')
    with Cons.prems have nr: "\<not> hasKeyword r kws" by auto
    from Suc Cons.prems have "j' < length rs" "hasKeyword (rs ! j') kws"
      "\<forall>k<j'. \<not> hasKeyword (rs ! k) kws" by auto
    then have "mrrLoop (i + 1) rs kws = Num (1 / real (i + 1 + j' + 1))"
      by (rule Cons.IH)
    with nr Suc show ?thesis by simp
  qed
qed

lemma calculateMRR_first:
  "firstRelevantAt results keywords i \<Longrightarrow> calculateMRR results keywords = Num (1 / (1 + real i))"
  using mrrLoop_first [where j = i and rs = results and kws = "keywords" and i = 0]
  by (simp add: firstRelevantAt_def calculateMRR_def add.commute)

lemma calculateMRR_none:
  "\<forall>r \<in> set results. \<not> hasKeyword r keywords \<Longrightarrow> calculateMRR results keywords = Num 0"
  by (simp add: calculateMRR_def mrrLoop_none)

lemma demo_relevance:
  "hasKeyword ceoResult [''Avery'', ''CEO'']" "\<not> hasKeyword employeeResult [''Avery'', ''CEO'']"
  by code_simp+

subsection \<open>nDCG: the computation on finite numbers\<close>

lemma relevanceScore_Num:
  "kws \<noteq> [] \<Longrightarrow> relevanceScore kws r = Num (specRelevance kws r)"
  by (simp add: relevanceScore_def specRelevance_def Let_def includes_str_sublist)

lemma log2_pos: "0 < log 2 (real i + 2)"
  by simp

lemma weightedSum_Nil [simp]: "weightedSum w k [] = 0"
  by (simp add: weightedSum_def)

lemma weightedSum_Cons [simp]:
  "weightedSum w k (x # xs) = x * w k + weightedSum w (Suc k) xs"
  unfolding weightedSum_def
  by (simp only: length_Cons sum.lessThan_Suc_shift) simp

lemma specDCG_weightedSum: "specDCG rs = weightedSum (\<lambda>i. 1 / log 2 (real i + 2)) 0 rs"
  by (simp add: specDCG_def weightedSum_def)

lemma dcg_term:
  "js_div (Num r) (js_log2 (Num (real (i + 2)))) = Num (r / log 2 (real i + 2))"
proof -
  have e: "real (i + 2) = real i + 2" by simp
  have p: "\<not> real i + 2 < 0" "real i + 2 \<noteq> 0" by linarith+
  have l: "log 2 (real i + 2) \<noteq> 0"
    using log2_pos [of i] by linarith
  show ?thesis
    unfolding e by (simp only: js_log2.simps js_div.simps p l if_False)
qed

lemma dcgReduce_Num:
  "dcgReduce i (Num s) (map Num rs) =
     Num (s + weightedSum (\<lambda>j. 1 / log 2 (real j + 2)) i rs)"
proof (induction rs arbitrary: i s)
  case Nil
  show ?case by simp
next
  case (Cons r rs)
  have "dcgReduce i (Num s) (map Num (r # rs)) =
        dcgReduce (i + 1) (Num (s + r / log 2 (real i + 2))) (map Num rs)"
    by (simp only: list.map dcgReduce.simps dcg_term js_add.simps)
  also have "\<dots> = Num (s + r / log 2 (real i + 2)
                 + weightedSum (\<lambda>j. 1 / log 2 (real j + 2)) (i + 1) rs)"
    by (rule Cons.IH)
  finally show ?case by (simp add: add.assoc)
qed

lemma dcgReduce_specDCG: "dcgReduce 0 (Num 0) (map Num rs) = Num (specDCG rs)"
  by (simp add: dcgReduce_Num specDCG_weightedSum)

lemma sortInsert_Num:
  "sortInsert descending (Num x) (map Num ys) = map Num (insort_key uminus x ys)"
  by (induction ys) (simp_all add: descending_def js_sub_def js_gt_def)

lemma js_sort_Num: "js_sort descending (map Num rs) = map Num (sort_key uminus rs)"
  unfolding js_sort_def sort_key_def
  by (induction rs) (simp_all add: sortInsert_Num)

lemma sorted_uminus_rev: "sorted (map uminus (xs :: real list)) = sorted (rev xs)"
  by (simp add: sorted_map sorted_wrt_rev)

lemma sort_key_uminus: "sort_key uminus (xs :: real list) = rev (sort xs)"
proof -
  have "sorted (rev (sort_key uminus xs))"
    unfolding sorted_uminus_rev [symmetric] by (rule sorted_sort_key)
  moreover have "mset (rev (sort_key uminus xs)) = mset xs"
    by simp
  ultimately have "sort xs = rev (sort_key uminus xs)"
    by (simp add: properties_for_sort)
  then show ?thesis by simp
qed

subsection \<open>nDCG: sorting in descending order maximises the weighted sum\<close>

lemma swap_le:
  fixes x y a b :: real
  assumes "x \<le> y" and "b \<le> a"
  shows "x * a + y * b \<le> y * a + x * b"
proof -
  have "0 \<le> (y - x) * (a - b)"
    using assms by simp
  then show ?thesis
    by (simp add: algebra_simps)
qed

lemma insort_weightedSum:
  assumes anti: "\<And>i. w (Suc i) \<le> w i"
  shows "weightedSum w k (x # ys) \<le> weightedSum w k (insort_key uminus x ys)"
proof (induction ys arbitrary: k)
  case Nil
  show ?case by simp
next
  case (Cons y ys)
  show ?case
  proof (cases "y \<le> x")
    case True
    then show ?thesis by simp
  next
    case False
    then have xy: "x \<le> y" by simp
    have "weightedSum w k (x # y # ys) = x * w k + y * w (Suc k) + weightedSum w (Suc (Suc k)) ys"
      by simp
    also have "\<dots> \<le> y * w k + x * w (Suc k) + weightedSum w (Suc (Suc k)) ys"
      using swap_le [OF xy anti [of k]] by simp
    also have "\<dots> = y * w k + weightedSum w (Suc k) (x # ys)"
      by simp
    also have "\<dots> \<le> y * w k + weightedSum w (Suc k) (insort_key uminus x ys)"
      using Cons.IH [of "Suc k"] by simp
    also have "\<dots> = weightedSum w k (insort_key uminus x (y # ys))"
      using False by simp
    finally show ?thesis .
  qed
qed

lemma sort_weightedSum:
  assumes anti: "\<And>i. w (Suc i) \<le> w i"
  shows "weightedSum w k xs \<le> weightedSum w k (sort_key uminus xs)"
proof (induction xs arbitrary: k)
  case Nil
  show ?case by simp
next
  case (Cons x xs)
  have "weightedSum w k (x # xs) \<le> weightedSum w k (x # sort_key uminus xs)"
    using Cons.IH [of "Suc k"] by simp
  also have "\<dots> \<le> weightedSum w k (insort_key uminus x (sort_key uminus xs))"
    using anti by (rule insort_weightedSum)
  finally show ?case by simp
qed

lemma discount_antimono: "1 / log 2 (real (Suc i) + 2) \<le> 1 / log 2 (real i + 2)"
proof -
  have "log 2 (real i + 2) \<le> log 2 (real (Suc i) + 2)"
    by simp
  with log2_pos [of i] show ?thesis
    by (simp only: frac_le)
qed

lemma specDCG_le_ideal: "specDCG rs \<le> specDCG (rev (sort rs))"
  unfolding specDCG_weightedSum sort_key_uminus [symmetric]
  by (rule sort_weightedSum) (rule discount_antimono)

lemma specDCG_nonneg:
  assumes "\<forall>r \<in> set rs. 0 \<le> r"
  shows "0 \<le> specDCG rs"
  unfolding specDCG_def
proof (rule sum_nonneg)
  fix i assume "i \<in> {..<length rs}"
  then have "0 \<le> rs ! i" using assms by simp
  with log2_pos [of i] show "0 \<le> rs ! i / log 2 (real i + 2)"
    by simp
qed

lemma specRelevance_nonneg: "0 \<le> specRelevance kws r"
  by (simp add: specRelevance_def)

lemma calculateNDCG_formula:
  assumes "kws \<noteq> []"
  shows "calculateNDCG results kws =
     Num (if specDCG (rev (sort (map (specRelevance kws) results))) = 0 then 0
          else specDCG (map (specRelevance kws) results)
               / specDCG (rev (sort (map (specRelevance kws) results))))"
proof -
  have rel: "map (relevanceScore kws) results = map Num (map (specRelevance kws) results)"
    using assms by (simp add: relevanceScore_Num)
  show ?thesis
    unfolding calculateNDCG_def Let_def rel js_sort_Num dcgReduce_specDCG sort_key_uminus
    by simp
qed

lemma demo_rels:
  "map (specRelevance [''Avery'', ''CEO'']) [employeeResult, ceoResult] = [0, 1]"
proof -
  have "\<not> includes_str (toLowerCase (payload_text employeeResult)) (toLowerCase ''Avery'')"
    "\<not> includes_str (toLowerCase (payload_text employeeResult)) (toLowerCase ''CEO'')"
    "includes_str (toLowerCase (payload_text ceoResult)) (toLowerCase ''Avery'')"
    "includes_str (toLowerCase (payload_text ceoResult)) (toLowerCase ''CEO'')"
    by code_simp+
  then show ?thesis
    by (simp add: specRelevance_def includes_str_sublist)
qed

lemma demo_dcg: "specDCG [0, 1] = 1 / log 2 3" "specDCG [1, 0] = 1"
  by (simp_all add: specDCG_def)

subsection \<open>Aggregation\<close>

lemma js_add_assoc: "js_add (js_add x y) z = js_add x (js_add y z)"
  by (cases x; cases y; cases z) simp_all

lemma js_add_zero_right [simp]: "js_add x (Num 0) = x"
  by (cases x) simp_all

lemma js_add_zero_left [simp]: "js_add (Num 0) x = x"
  by (cases x) simp_all

lemma fold_js_add:
  "fold (\<lambda>r acc. js_add acc (f r)) rs a = js_add a (jsSum (map f rs))"
  by (induction rs arbitrary: a) (simp_all add: js_add_assoc)

lemma meanMetric_jsMean: "meanMetric m rs = jsMean (map (\<lambda>r. m (metrics r)) rs)"
  by (simp add: meanMetric_def jsMean_def fold_js_add)

lemma jsSum_finite:
  "\<forall>x \<in> set xs. isNum x \<Longrightarrow> jsSum xs = Num (sum_list (map numVal xs))"
proof (induction xs)
  case Nil
  show ?case by simp
next
  case (Cons x xs)
  then have "isNum x" by simp
  then obtain a where "x = Num a" by (cases x) simp_all
  with Cons show ?case by simp
qed

lemma jsMean_finite:
  assumes "xs \<noteq> []" and "\<forall>x \<in> set xs. isNum x"
  shows "jsMean xs = Num (sum_list (map numVal xs) / real (length xs))"
  using assms by (simp add: jsMean_def jsSum_finite)

lemma jsSum_NaN: "NaN \<in> set xs \<Longrightarrow> jsSum xs = NaN"
  by (induction xs) auto

lemma jsMean_NaN: "NaN \<in> set xs \<Longrightarrow> jsMean xs = NaN"
  by (simp add: jsMean_def jsSum_NaN)

lemma meanMetric_Nil: "meanMetric m [] = NaN"
  by (simp add: meanMetric_def)

lemma fold_upd:
  "fold (\<lambda>c m. m(c \<mapsto> f c)) cs m0 c' = (if c' \<in> set cs then Some (f c') else m0 c')"
  by (induction cs arbitrary: m0) auto

lemma set_distinctInOrder: "set (distinctInOrder xs) = set xs"
  by (simp add: distinctInOrder_def)

lemma metricsByCategory_aggregate:
  "metricsByCategory (aggregate n results) c =
     (if c \<in> set (map res_category results) then Some (categoryEntry results c) else None)"
  by (simp add: aggregate_def Let_def fold_upd set_distinctInOrder)

lemma evaluateAll_length:
  "evaluateAll retrieveChunks limit tqs = Some rs \<Longrightarrow> length rs = length tqs"
  by (induction tqs arbitrary: rs) (auto split: option.splits)

lemma evaluateAll_total:
  "\<forall>t \<in> set tqs. retrieveChunks (question t) limit \<noteq> None \<Longrightarrow>
     \<exists>rs. evaluateAll retrieveChunks limit tqs = Some rs"
  by (induction tqs) (auto simp: evaluateTestCase_def split: option.splits)

lemma runFullEvaluation_total:
  assumes "\<forall>t \<in> set tqs. retrieveChunks (question t) limit \<noteq> None"
  shows "\<exists>ev. runFullEvaluation retrieveChunks tqs limit = Some ev"
  using assms evaluateAll_total [of tqs retrieveChunks limit]
  by (auto simp: runFullEvaluation_def)

lemma runFullEvaluation_Some:
  assumes "runFullEvaluation retrieveChunks tqs limit = Some ev"
  shows "evaluateAll retrieveChunks limit tqs = Some (detailedResults ev)
     \<and> ev = aggregate (length tqs) (detailedResults ev)"
  using assms
  by (auto simp: runFullEvaluation_def aggregate_def Let_def split: option.splits)

subsection \<open>The example results\<close>

lemma demo_coverage:
  "calculateKeywordCoverage [employeeResult, ceoResult] [''Avery'', ''CEO''] = Num 1"
  by (rule coverage_avery_ceo [of ceoResult]) (simp_all add: ceoResult_def)

lemma demo_mrr: "calculateMRR [employeeResult, ceoResult] [''Avery'', ''CEO''] = Num (1 / 2)"
proof -
  have "firstRelevantAt [employeeResult, ceoResult] [''Avery'', ''CEO''] 1"
    by (simp add: firstRelevantAt_def demo_relevance)
  from calculateMRR_first [OF this] show ?thesis by simp
qed

lemma demo_ndcg: "calculateNDCG [employeeResult, ceoResult] [''Avery'', ''CEO''] = Num (1 / log 2 3)"
proof -
  have ne: "[''Avery'', ''CEO''] \<noteq> []" by simp
  have s: "rev (sort [0, 1 :: real]) = [1, 0]" by simp
  show ?thesis
    unfolding calculateNDCG_formula [OF ne] demo_rels s demo_dcg by simp
qed

lemma detailedResults_aggregate: "detailedResults (aggregate n rs) = rs"
  by (simp add: aggregate_def Let_def)

lemma demo_join_found:
  "includes_str (joinWith '' '' (map (\<lambda>r. toLowerCase (payload_text r)) [employeeResult, ceoResult]))
     (toLowerCase ''employee Avery'')"
  "\<not> includes_str (joinWith '' '' (map (\<lambda>r. toLowerCase (payload_text r)) [employeeResult, ceoResult]))
     (toLowerCase ''manager'')"
  by code_simp+

lemma demo_found:
  "includes_str (joinWith '' '' (map (\<lambda>r. toLowerCase (payload_text r)) [employeeResult, ceoResult]))
     (toLowerCase ''employee'')"
  "\<not> includes_str (joinWith '' '' (map (\<lambda>r. toLowerCase (payload_text r)) [employeeResult, ceoResult]))
     (toLowerCase ''xyz'')"
  "hasKeyword employeeResult [''employee'']"
  "\<not> hasKeyword employeeResult [''xyz'']" "\<not> hasKeyword ceoResult [''xyz'']"
  by code_simp+

lemma demo_rels2:
  "map (specRelevance [''employee'']) [employeeResult, ceoResult] = [1, 0]"
  "map (specRelevance [''xyz'']) [employeeResult, ceoResult] = [0, 0]"
proof -
  have "includes_str (toLowerCase (payload_text employeeResult)) (toLowerCase ''employee'')"
    "\<not> includes_str (toLowerCase (payload_text ceoResult)) (toLowerCase ''employee'')"
    "\<not> includes_str (toLowerCase (payload_text employeeResult)) (toLowerCase ''xyz'')"
    "\<not> includes_str (toLowerCase (payload_text ceoResult)) (toLowerCase ''xyz'')"
    by code_simp+
  then show "map (specRelevance [''employee'']) [employeeResult, ceoResult] = [1, 0]"
    "map (specRelevance [''xyz'']) [employeeResult, ceoResult] = [0, 0]"
    by (simp_all add: specRelevance_def includes_str_sublist)
qed

lemma employee_metrics:
  "calculateKeywordCoverage [employeeResult, ceoResult] [''employee''] = Num 1"
  "calculateMRR [employeeResult, ceoResult] [''employee''] = Num 1"
  "calculateNDCG [employeeResult, ceoResult] [''employee''] = Num 1"
proof -
  show "calculateKeywordCoverage [employeeResult, ceoResult] [''employee''] = Num 1"
    using demo_found(1) by (simp add: calculateKeywordCoverage_def Let_def)
  have "firstRelevantAt [employeeResult, ceoResult] [''employee''] 0"
    by (simp add: firstRelevantAt_def demo_found)
  from calculateMRR_first [OF this]
  show "calculateMRR [employeeResult, ceoResult] [''employee''] = Num 1" by simp
  have ne: "[''employee''] \<noteq> []" by simp
  have s: "rev (sort [1, 0 :: real]) = [1, 0]" by simp
  show "calculateNDCG [employeeResult, ceoResult] [''employee''] = Num 1"
    unfolding calculateNDCG_formula [OF ne] demo_rels2 s demo_dcg by simp
qed

lemma other_metrics:
  "calculateKeywordCoverage [employeeResult, ceoResult] [''xyz''] = Num 0"
  "calculateMRR [employeeResult, ceoResult] [''xyz''] = Num 0"
  "calculateNDCG [employeeResult, ceoResult] [''xyz''] = Num 0"
proof -
  show "calculateKeywordCoverage [employeeResult, ceoResult] [''xyz''] = Num 0"
    using demo_found(2) by (simp add: calculateKeywordCoverage_def Let_def)
  show "calculateMRR [employeeResult, ceoResult] [''xyz''] = Num 0"
    by (rule calculateMRR_none) (simp add: demo_found)
  have ne: "[''xyz''] \<noteq> []" by simp
  have s: "rev (sort [0, 0 :: real]) = [0, 0]" by simp
  have z: "specDCG [0, 0] = 0" by (simp add: specDCG_def)
  show "calculateNDCG [employeeResult, ceoResult] [''xyz''] = Num 0"
    unfolding calculateNDCG_formula [OF ne] demo_rels2 s z by simp
qed

subsection \<open>The claims about the metrics\<close>

text \<open>
  Claim C4. A result is relevant when its text contains at least one keyword,
  case-insensitively. \<open>calculateMRR\<close> returns 0 when no result is relevant and
  \<open>1 / (1 + i)\<close> when \<open>i\<close> is the 0-based index of the first relevant result; so
  the value does not increase when the first relevant result moves to a later position.
\<close>

theorem reciprocal_rank:
  "(hasKeyword r keywords \<longleftrightarrow>
      (\<exists>k \<in> set keywords. sublist (toLowerCase k) (toLowerCase (payload_text r))))
   \<and> ((\<forall>r \<in> set results. \<not> hasKeyword r keywords) \<longrightarrow> calculateMRR results keywords = Num 0)
   \<and> (firstRelevantAt results keywords i \<longrightarrow>
        calculateMRR results keywords = Num (1 / (1 + real i)))
   \<and> (firstRelevantAt results keywords i \<and> firstRelevantAt results' keywords' j \<and> i \<le> j \<longrightarrow>
        (\<exists>a b. calculateMRR results keywords = Num a \<and> calculateMRR results' keywords' = Num b
               \<and> b \<le> a))"
proof (intro conjI impI)
  show "hasKeyword r keywords \<longleftrightarrow>
      (\<exists>k \<in> set keywords. sublist (toLowerCase k) (toLowerCase (payload_text r)))"
    by (rule hasKeyword_iff)
  show "calculateMRR results keywords = Num 0" if "\<forall>r \<in> set results. \<not> hasKeyword r keywords"
    using that by (rule calculateMRR_none)
  show "calculateMRR results keywords = Num (1 / (1 + real i))"
    if "firstRelevantAt results keywords i"
    using that by (rule calculateMRR_first)
  show "\<exists>a b. calculateMRR results keywords = Num a \<and> calculateMRR results' keywords' = Num b
               \<and> b \<le> a"
    if h: "firstRelevantAt results keywords i \<and> firstRelevantAt results' keywords' j \<and> i \<le> j"
  proof -
    from h have "calculateMRR results keywords = Num (1 / (1 + real i))"
      "calculateMRR results' keywords' = Num (1 / (1 + real j))"
      by (simp_all add: calculateMRR_first)
    moreover from h have "1 / (1 + real j) \<le> 1 / (1 + real i)"
      by (simp add: frac_le)
    ultimately show ?thesis by blast
  qed
qed

text \<open>Claim C4 with the relevant result in second place, and with none.\<close>

theorem reciprocal_rank_witness:
  "calculateMRR [employeeResult, ceoResult] [''Avery'', ''CEO''] = Num (1 / 2)
   \<and> calculateMRR [employeeResult] [''Avery'', ''CEO''] = Num 0"
proof -
  have "firstRelevantAt [employeeResult, ceoResult] [''Avery'', ''CEO''] 1"
    by (simp add: firstRelevantAt_def demo_relevance)
  moreover have "\<forall>r \<in> set [employeeResult]. \<not> hasKeyword r [''Avery'', ''CEO'']"
    by (simp add: demo_relevance)
  ultimately show ?thesis
    using reciprocal_rank [of ceoResult "[''Avery'', ''CEO'']" "[employeeResult, ceoResult]" 1]
      reciprocal_rank [of ceoResult "[''Avery'', ''CEO'']" "[employeeResult]" 0]
    by simp
qed

text \<open>
  Claim C3. For a non-empty keyword list \<open>calculateNDCG\<close> returns DCG / IDCG, and 0 when
  IDCG is 0, where the relevance of a position is the fraction of keywords found in its
  text, DCG is the sum of \<open>relevance\<^sub>i / log\<^sub>2 (i + 2)\<close> and IDCG is the DCG of the
  same relevance values sorted in descending order; when IDCG is positive the value lies
  between 0 and 1.
\<close>

theorem ndcg_value:
  assumes "keywords \<noteq> []"
  shows "calculateNDCG results keywords =
           (let rels = map (specRelevance keywords) results;
                dcg = specDCG rels;
                idcg = specDCG (rev (sort rels))
            in Num (if idcg = 0 then 0 else dcg / idcg))
     \<and> (0 < specDCG (rev (sort (map (specRelevance keywords) results))) \<longrightarrow>
          (\<exists>v. calculateNDCG results keywords = Num v \<and> 0 \<le> v \<and> v \<le> 1))"
proof (intro conjI impI)
  let ?rels = "map (specRelevance keywords) results"
  show "calculateNDCG results keywords =
           (let rels = ?rels; dcg = specDCG rels; idcg = specDCG (rev (sort rels))
            in Num (if idcg = 0 then 0 else dcg / idcg))"
    using calculateNDCG_formula [OF assms] by (simp add: Let_def)
  assume pos: "0 < specDCG (rev (sort ?rels))"
  have "0 \<le> specDCG ?rels"
    by (rule specDCG_nonneg) (simp add: specRelevance_nonneg)
  moreover have "specDCG ?rels \<le> specDCG (rev (sort ?rels))"
    by (rule specDCG_le_ideal)
  ultimately have "0 \<le> specDCG ?rels / specDCG (rev (sort ?rels))"
    "specDCG ?rels / specDCG (rev (sort ?rels)) \<le> 1"
    using pos by simp_all
  moreover have "calculateNDCG results keywords = Num (specDCG ?rels / specDCG (rev (sort ?rels)))"
    using calculateNDCG_formula [OF assms, of results] pos by simp
  ultimately show "\<exists>v. calculateNDCG results keywords = Num v \<and> 0 \<le> v \<and> v \<le> 1"
    by blast
qed

text \<open>Claim C3 with the relevant result in second place.\<close>

theorem ndcg_value_witness:
  "calculateNDCG [employeeResult, ceoResult] [''Avery'', ''CEO''] = Num (1 / log 2 3)
   \<and> (\<exists>v. calculateNDCG [employeeResult, ceoResult] [''Avery'', ''CEO''] = Num v
           \<and> 0 \<le> v \<and> v \<le> 1)"
proof -
  have ne: "[''Avery'', ''CEO''] \<noteq> []" by simp
  have s: "rev (sort [0, 1 :: real]) = [1, 0]" by simp
  note n = ndcg_value [OF ne, of "[employeeResult, ceoResult]"]
  from n have "calculateNDCG [employeeResult, ceoResult] [''Avery'', ''CEO''] = Num (1 / log 2 3)"
    unfolding demo_rels Let_def s demo_dcg by simp
  moreover from n
  have "\<exists>v. calculateNDCG [employeeResult, ceoResult] [''Avery'', ''CEO''] = Num v \<and> 0 \<le> v \<and> v \<le> 1"
    unfolding demo_rels Let_def s demo_dcg by simp
  ultimately show ?thesis by (rule conjI)
qed

text \<open>
  Claim C6. With an empty keyword list \<open>calculateKeywordCoverage\<close> divides zero by zero
  and returns NaN, for every result list: no policy resolves the case.
\<close>

theorem keyword_coverage_empty_keywords: "calculateKeywordCoverage results [] = NaN"
  by (simp add: calculateKeywordCoverage_def)

text \<open>
  Claim C7, as stated, fails: with the retrieved texts \<open>ab\<close> and \<open>cd\<close> the keyword
  \<open>bc\<close> is a substring of their concatenation, and the coverage the code returns is 0.
\<close>

theorem keyword_coverage_concat_counterexample:
  "sublist (toLowerCase ''bc'')
     (toLowerCase (payload_text abResult) @ toLowerCase (payload_text cdResult))
   \<and> calculateKeywordCoverage [abResult, cdResult] [''bc''] = Num 0"
proof -
  have l: "toLowerCase ''bc'' = ''bc''" "toLowerCase (payload_text abResult) = ''ab''"
    "toLowerCase (payload_text cdResult) = ''cd''"
    by code_simp+
  have "sublist ''bc'' (''a'' @ ''bc'' @ ''d'')"
    by (rule sublist_appendI)
  moreover have "calculateKeywordCoverage [abResult, cdResult] [''bc''] = Num 0"
    by (simp add: calculateKeywordCoverage_def Let_def l)
  ultimately show ?thesis
    by (simp add: l)
qed

text \<open>
  Claim C7, amended. For every non-empty keyword list \<open>calculateKeywordCoverage\<close> returns
  the number of keywords that occur, case-insensitively, as substrings anywhere in the
  texts of all retrieved results joined by single spaces, divided by the number of keywords.
  With the keywords \<open>Avery\<close> and \<open>CEO\<close> it returns 1 when some retrieved text contains
  \<open>Avery Lancaster is the CEO\<close>, and 0 when the only retrieved text is
  \<open>Lancaster is an employee\<close>.
\<close>

theorem keyword_coverage_fraction:
  assumes "keywords \<noteq> []"
  shows "calculateKeywordCoverage results keywords =
           Num (real (length (filter
                  (\<lambda>k. sublist (toLowerCase k)
                         (joinWith '' '' (map (\<lambda>r. toLowerCase (payload_text r)) results)))
                  keywords))
                / real (length keywords))
     \<and> ((\<exists>r \<in> set results. sublist ''Avery Lancaster is the CEO'' (payload_text r))
          \<longrightarrow> calculateKeywordCoverage results [''Avery'', ''CEO''] = Num 1)
     \<and> calculateKeywordCoverage
          [\<lparr> score = s, payload_source = src, payload_text = ''Lancaster is an employee'' \<rparr>]
          [''Avery'', ''CEO''] = Num 0"
  using calculateKeywordCoverage_formula [OF assms] coverage_avery_ceo coverage_employee
  by blast

text \<open>
  Claim C7, amended, at two retrieved results: both keywords found; one of two keywords
  found, across the joining space; and none found.
\<close>

theorem keyword_coverage_fraction_witness:
  "calculateKeywordCoverage [employeeResult, ceoResult] [''Avery'', ''CEO''] = Num 1
   \<and> calculateKeywordCoverage [employeeResult, ceoResult] [''employee Avery'', ''manager''] = Num (1 / 2)
   \<and> calculateKeywordCoverage [employeeResult] [''Avery'', ''CEO''] = Num 0"
proof -
  have ex: "\<exists>r \<in> set [employeeResult, ceoResult].
      sublist ''Avery Lancaster is the CEO'' (payload_text r)"
    by (simp add: ceoResult_def)
  have ne: "[''Avery'', ''CEO''] \<noteq> []" and ne2: "[''employee Avery'', ''manager''] \<noteq> []"
    by simp_all
  note k = keyword_coverage_fraction [OF ne, where results = "[employeeResult, ceoResult]"
      and s = "0.5" and src = "''employees/Lancaster.md''"]
  note k2 = keyword_coverage_fraction [OF ne2, where results = "[employeeResult, ceoResult]"]
  from k ex have a: "calculateKeywordCoverage [employeeResult, ceoResult] [''Avery'', ''CEO''] = Num 1"
    by blast
  from k2 have "calculateKeywordCoverage [employeeResult, ceoResult] [''employee Avery'', ''manager''] =
      Num (real (length (filter
                  (\<lambda>k. sublist (toLowerCase k)
                         (joinWith '' '' (map (\<lambda>r. toLowerCase (payload_text r)) [employeeResult, ceoResult])))
                  [''employee Avery'', ''manager'']))
                / real (length [''employee Avery'', ''manager'']))"
    by blast
  then have b: "calculateKeywordCoverage [employeeResult, ceoResult] [''employee Avery'', ''manager''] = Num (1 / 2)"
    using demo_join_found by (simp add: includes_str_sublist)
  from k have c: "calculateKeywordCoverage [employeeResult] [''Avery'', ''CEO''] = Num 0"
    unfolding employeeResult_def by blast
  from a b c show ?thesis by blast
qed

text \<open>
  Claim C8. When \<open>runFullEvaluation\<close> returns for a non-empty list of test questions,
  every aggregate metric is the arithmetic mean of that metric over all per-query results,
  and the entry of every category is the arithmetic mean over exactly the per-query results
  of that category (with their count); categories that do not occur have no entry. The mean
  is the sum divided by the number of values, in the arithmetic of the program's numbers:
  on finite values it is their real arithmetic mean, and it is NaN as soon as one value is.
\<close>

theorem aggregate_metrics_are_means:
  assumes run: "runFullEvaluation retrieveChunks testQuestions limit = Some ev"
    and ne: "testQuestions \<noteq> []"
  shows "evaluateAll retrieveChunks limit testQuestions = Some (detailedResults ev)
     \<and> length (detailedResults ev) = length testQuestions
     \<and> aggregateMetrics ev =
         \<lparr> keywordCoverage = jsMean (map (\<lambda>r. keywordCoverage (metrics r)) (detailedResults ev)),
           mrr = jsMean (map (\<lambda>r. mrr (metrics r)) (detailedResults ev)),
           ndcg = jsMean (map (\<lambda>r. ndcg (metrics r)) (detailedResults ev)) \<rparr>
     \<and> (\<forall>c \<in> set (map res_category (detailedResults ev)).
           metricsByCategory ev c =
             Some \<lparr> keywordCoverage =
                      jsMean (map (\<lambda>r. keywordCoverage (metrics r))
                               (filter (\<lambda>r. res_category r = c) (detailedResults ev))),
                    mrr = jsMean (map (\<lambda>r. mrr (metrics r))
                               (filter (\<lambda>r. res_category r = c) (detailedResults ev))),
                    ndcg = jsMean (map (\<lambda>r. ndcg (metrics r))
                               (filter (\<lambda>r. res_category r = c) (detailedResults ev))),
                    count = length (filter (\<lambda>r. res_category r = c) (detailedResults ev)) \<rparr>)
     \<and> (\<forall>c. c \<notin> set (map res_category (detailedResults ev)) \<longrightarrow> metricsByCategory ev c = None)
     \<and> (\<forall>xs. xs \<noteq> [] \<and> (\<forall>x \<in> set xs. isNum x) \<longrightarrow>
            jsMean xs = Num (sum_list (map numVal xs) / real (length xs)))
     \<and> (\<forall>xs. NaN \<in> set xs \<longrightarrow> jsMean xs = NaN)"
proof -
  let ?rs = "detailedResults ev"
  from runFullEvaluation_Some [OF run]
  have ea: "evaluateAll retrieveChunks limit testQuestions = Some ?rs"
    and ev: "ev = aggregate (length testQuestions) ?rs" by simp_all
  from ea have len: "length ?rs = length testQuestions"
    by (rule evaluateAll_length)
  have agg: "aggregateMetrics ev =
         \<lparr> keywordCoverage = jsMean (map (\<lambda>r. keywordCoverage (metrics r)) ?rs),
           mrr = jsMean (map (\<lambda>r. mrr (metrics r)) ?rs),
           ndcg = jsMean (map (\<lambda>r. ndcg (metrics r)) ?rs) \<rparr>"
    by (subst ev) (simp add: aggregate_def Let_def meanMetric_jsMean)
  have cat: "metricsByCategory ev c =
             Some \<lparr> keywordCoverage =
                      jsMean (map (\<lambda>r. keywordCoverage (metrics r))
                               (filter (\<lambda>r. res_category r = c) ?rs)),
                    mrr = jsMean (map (\<lambda>r. mrr (metrics r)) (filter (\<lambda>r. res_category r = c) ?rs)),
                    ndcg = jsMean (map (\<lambda>r. ndcg (metrics r)) (filter (\<lambda>r. res_category r = c) ?rs)),
                    count = length (filter (\<lambda>r. res_category r = c) ?rs) \<rparr>"
    if c: "c \<in> set (map res_category ?rs)" for c
  proof -
    have "metricsByCategory ev c = Some (categoryEntry ?rs c)"
      using c by (subst ev) (simp only: metricsByCategory_aggregate if_True)
    then show ?thesis
      by (simp add: categoryEntry_def Let_def meanMetric_jsMean)
  qed
  have none: "metricsByCategory ev c = None" if "c \<notin> set (map res_category ?rs)" for c
    using that by (subst ev) (simp only: metricsByCategory_aggregate if_False)
  from ea len agg cat none jsMean_finite jsMean_NaN show ?thesis by blast
qed

text \<open>Claim C8 at three test cases in two categories.\<close>

theorem aggregate_metrics_are_means_witness:
  "\<exists>ev. runFullEvaluation demoRetrieve demoQuestions 3 = Some ev
     \<and> length (detailedResults ev) = 3
     \<and> aggregateMetrics ev =
         \<lparr> keywordCoverage = Num (2 / 3), mrr = Num (1 / 2),
           ndcg = Num ((1 / log 2 3 + 1) / 3) \<rparr>
     \<and> metricsByCategory ev ''direct_fact'' =
         Some \<lparr> keywordCoverage = Num 1, mrr = Num (3 / 4),
                ndcg = Num ((1 / log 2 3 + 1) / 2), count = 2 \<rparr>
     \<and> metricsByCategory ev ''other'' =
         Some \<lparr> keywordCoverage = Num 0, mrr = Num 0, ndcg = Num 0, count = 1 \<rparr>
     \<and> metricsByCategory ev ''missing'' = None"
proof -
  define r1 where "r1 = the (evaluateTestCase demoRetrieve demoQuestion 3)"
  define r2 where "r2 = the (evaluateTestCase demoRetrieve employeeQuestion 3)"
  define r3 where "r3 = the (evaluateTestCase demoRetrieve otherQuestion 3)"
  have e: "evaluateTestCase demoRetrieve demoQuestion 3 = Some r1"
    "evaluateTestCase demoRetrieve employeeQuestion 3 = Some r2"
    "evaluateTestCase demoRetrieve otherQuestion 3 = Some r3"
    by (simp_all add: r1_def r2_def r3_def evaluateTestCase_def demoRetrieve_def)
  have m: "metrics r1 = \<lparr> keywordCoverage = Num 1, mrr = Num (1 / 2), ndcg = Num (1 / log 2 3) \<rparr>"
    "metrics r2 = \<lparr> keywordCoverage = Num 1, mrr = Num 1, ndcg = Num 1 \<rparr>"
    "metrics r3 = \<lparr> keywordCoverage = Num 0, mrr = Num 0, ndcg = Num 0 \<rparr>"
    by (simp_all add: r1_def r2_def r3_def evaluateTestCase_def demoRetrieve_def
        demoQuestion_def employeeQuestion_def otherQuestion_def
        demo_coverage demo_mrr demo_ndcg employee_metrics other_metrics)
  have c: "res_category r1 = ''direct_fact''" "res_category r2 = ''direct_fact''"
    "res_category r3 = ''other''"
    by (simp_all add: r1_def r2_def r3_def evaluateTestCase_def demoRetrieve_def
        demoQuestion_def employeeQuestion_def otherQuestion_def)
  define ev where "ev = aggregate (length demoQuestions) [r1, r2, r3]"
  have run: "runFullEvaluation demoRetrieve demoQuestions 3 = Some ev"
    by (simp add: runFullEvaluation_def demoQuestions_def e ev_def)
  have ne: "demoQuestions \<noteq> []"
    by (simp add: demoQuestions_def)
  have dr: "detailedResults ev = [r1, r2, r3]"
    by (simp add: ev_def detailedResults_aggregate)
  note t = aggregate_metrics_are_means [OF run ne, unfolded dr]
  from t have len: "length [r1, r2, r3] = length demoQuestions" by blast
  from t have "aggregateMetrics ev =
         \<lparr> keywordCoverage = jsMean (map (\<lambda>r. keywordCoverage (metrics r)) [r1, r2, r3]),
           mrr = jsMean (map (\<lambda>r. mrr (metrics r)) [r1, r2, r3]),
           ndcg = jsMean (map (\<lambda>r. ndcg (metrics r)) [r1, r2, r3]) \<rparr>"
    by blast
  then have agg: "aggregateMetrics ev =
         \<lparr> keywordCoverage = Num (2 / 3), mrr = Num (1 / 2),
           ndcg = Num ((1 / log 2 3 + 1) / 3) \<rparr>"
    by (simp add: m jsMean_def)
  from t have cat: "\<forall>c \<in> set (map res_category [r1, r2, r3]).
           metricsByCategory ev c =
             Some \<lparr> keywordCoverage =
                      jsMean (map (\<lambda>r. keywordCoverage (metrics r))
                               (filter (\<lambda>r. res_category r = c) [r1, r2, r3])),
                    mrr = jsMean (map (\<lambda>r. mrr (metrics r))
                               (filter (\<lambda>r. res_category r = c) [r1, r2, r3])),
                    ndcg = jsMean (map (\<lambda>r. ndcg (metrics r))
                               (filter (\<lambda>r. res_category r = c) [r1, r2, r3])),
                    count = length (filter (\<lambda>r. res_category r = c) [r1, r2, r3]) \<rparr>"
    by blast
  have df: "metricsByCategory ev ''direct_fact'' =
         Some \<lparr> keywordCoverage = Num 1, mrr = Num (3 / 4),
                ndcg = Num ((1 / log 2 3 + 1) / 2), count = 2 \<rparr>"
    using bspec [OF cat, of "''direct_fact''"] by (simp add: c m jsMean_def)
  have ot: "metricsByCategory ev ''other'' =
         Some \<lparr> keywordCoverage = Num 0, mrr = Num 0, ndcg = Num 0, count = 1 \<rparr>"
    using bspec [OF cat, of "''other''"] by (simp add: c m jsMean_def)
  from t have "\<forall>c. c \<notin> set (map res_category [r1, r2, r3]) \<longrightarrow> metricsByCategory ev c = None"
    by blast
  then have mi: "metricsByCategory ev ''missing'' = None"
    by (simp add: c)
  from run dr agg df ot mi show ?thesis
    by simp
qed

text \<open>
  Claim C9, as stated, fails: on the empty list of test questions \<open>runFullEvaluation\<close>
  returns, and its aggregate metrics are NaN.
\<close>

theorem empty_evaluation_counterexample:
  "runFullEvaluation demoRetrieve [] 3 \<noteq> None
   \<and> map_option aggregateMetrics (runFullEvaluation demoRetrieve [] 3) =
       Some \<lparr> keywordCoverage = NaN, mrr = NaN, ndcg = NaN \<rparr>"
  by (simp add: runFullEvaluation_def aggregate_def Let_def meanMetric_Nil)

text \<open>
  Claim C9, amended. Applied to the empty list of test questions, \<open>runFullEvaluation\<close>
  does not fail: it returns zero questions, the three aggregate metrics NaN (zero divided
  by zero), no category and no per-query result.
\<close>

theorem empty_evaluation:
  "runFullEvaluation retrieveChunks [] limit =
     Some \<lparr> totalQuestions = 0,
            aggregateMetrics = \<lparr> keywordCoverage = NaN, mrr = NaN, ndcg = NaN \<rparr>,
            metricsByCategory = Map.empty,
            detailedResults = [] \<rparr>"
  by (simp add: runFullEvaluation_def aggregate_def Let_def meanMetric_Nil distinctInOrder_def)

text \<open>Claim C9, amended, with the example retrieval.\<close>

theorem empty_evaluation_witness:
  "map_option totalQuestions (runFullEvaluation demoRetrieve [] 3) = Some 0
   \<and> map_option detailedResults (runFullEvaluation demoRetrieve [] 3) = Some []"
  using empty_evaluation [of demoRetrieve 3] by simp

end
